theory Spec2Isabelle
  imports Main "HOL-Library.Multiset" "HOL-Library.Sublist"
begin

section \<open>Data model (shared/schema.ts)\<close>

text \<open>
  Timestamps are the millisecond counts that the server code reads with
  \<^verbatim>\<open>Date.getTime()\<close>; serial ids are integers.  The database is
  a record of its five tables, each a list of rows in insertion order, together
  with the next value of every \<^verbatim>\<open>serial\<close> sequence.
\<close>

type_synonym timestamp = int

text \<open>
  Modelled from the spec: the \<^verbatim>\<open>users\<close> table is declared in
  \<^verbatim>\<open>shared/models/auth\<close>, which is not among the sources.  The row
  carries the columns that \<^verbatim>\<open>server/storage.ts\<close> reads: the opaque
  stable id (the primary key every foreign key refers to) and the nullable
  identity fields email, first name and last name.
\<close>

record user =
  u_id :: string
  u_email :: "string option"
  u_firstName :: "string option"
  u_lastName :: "string option"

record conversation =
  c_id :: int
  c_name :: "string option"
  c_isGroup :: bool
  c_createdAt :: timestamp

record conversationMember =
  m_id :: int
  m_conversationId :: int
  m_userId :: string
  m_joinedAt :: timestamp

record message =
  msg_id :: int
  msg_conversationId :: int
  msg_senderId :: string
  msg_content :: string
  msg_createdAt :: timestamp

record contact =
  ct_id :: int
  ct_userId :: string
  ct_contactId :: string
  ct_createdAt :: timestamp

record db =
  users :: "user list"
  conversations :: "conversation list"
  conversationMembers :: "conversationMember list"
  messages :: "message list"
  contacts :: "contact list"
  conversations_seq :: int
  conversationMembers_seq :: int
  messages_seq :: int
  contacts_seq :: int

text \<open>
  A JavaScript number as the routes produce it with \<^verbatim>\<open>parseInt\<close>:
  an integer or \<^verbatim>\<open>NaN\<close>.  The integer is exact here; a JavaScript
  number carries every integer up to \<open>2\<^sup>5\<^sup>3 - 1\<close> in magnitude
  exactly, and the properties below that range over such numbers stay within
  that bound.
\<close>

datatype jsnum = NaN | Num int


text \<open>
  The id columns are 32-bit integers and LIMIT and OFFSET are 64-bit integers:
  a number that a caller supplies for one of them and that lies outside the
  range is refused by the database when the query is run.  (The ids that the
  model's own sequences issue are not bounded.)
\<close>

definition int4 :: "int \<Rightarrow> bool" where
  "int4 i \<longleftrightarrow> - 2147483648 \<le> i \<and> i \<le> 2147483647"

definition int8_max :: int where
  "int8_max = 9223372036854775807"

text \<open>
  Everything the server code throws or receives as a rejected promise.  All three
  are instances of the JavaScript class \<^verbatim>\<open>Error\<close>: the storage
  layer's own \<^verbatim>\<open>new Error(message)\<close>, the validation error of a
  failed schema parse, and the database driver's error, tagged with the table
  or clause that raised it.
\<close>

datatype error = Error string | ZodError | DatabaseError string

definition instanceof_Error :: "error \<Rightarrow> bool" where
  "instanceof_Error e = (case e of Error _ \<Rightarrow> True | ZodError \<Rightarrow> True | DatabaseError _ \<Rightarrow> True)"

section \<open>The persistence layer: single statements\<close>

text \<open>
  Every statement is atomic on its own and no statement is wrapped in a
  transaction by the callers.  An insert draws its ids from the table's
  sequence (which advances whether or not the statement succeeds), checks the
  primary key and the foreign keys declared in the schema, and either appends
  all its rows or fails and appends none.
\<close>

definition user_ids :: "db \<Rightarrow> string set" where
  "user_ids d = set (map u_id (users d))"

definition conversation_ids :: "db \<Rightarrow> int set" where
  "conversation_ids d = set (map c_id (conversations d))"

definition insert_conversations :: "db \<Rightarrow> timestamp \<Rightarrow> bool \<Rightarrow> (error + conversation) \<times> db" where
  "insert_conversations d now isGroup =
     (let row = \<lparr>c_id = conversations_seq d, c_name = None, c_isGroup = isGroup, c_createdAt = now\<rparr>;
          d1 = d\<lparr>conversations_seq := conversations_seq d + 1\<rparr>
      in if c_id row \<in> conversation_ids d then (Inl (DatabaseError ''conversations''), d1)
         else (Inr row, d1\<lparr>conversations := conversations d @ [row]\<rparr>))"

definition member_rows :: "int \<Rightarrow> timestamp \<Rightarrow> (int \<times> string) list \<Rightarrow> conversationMember list" where
  "member_rows first now vals =
     map (\<lambda>(i, (cid, uid)). \<lparr>m_id = first + int i, m_conversationId = cid, m_userId = uid, m_joinedAt = now\<rparr>)
         (enumerate 0 vals)"

definition insert_conversationMembers ::
  "db \<Rightarrow> timestamp \<Rightarrow> (int \<times> string) list \<Rightarrow> (error + conversationMember list) \<times> db" where
  "insert_conversationMembers d now vals =
     (let rows = member_rows (conversationMembers_seq d) now vals;
          d1 = d\<lparr>conversationMembers_seq := conversationMembers_seq d + int (length vals)\<rparr>
      in if (\<exists>r \<in> set rows. m_id r \<in> set (map m_id (conversationMembers d))
                \<or> m_conversationId r \<notin> conversation_ids d \<or> m_userId r \<notin> user_ids d)
         then (Inl (DatabaseError ''conversation_members''), d1)
         else (Inr rows, d1\<lparr>conversationMembers := conversationMembers d @ rows\<rparr>))"

definition insert_messages :: "db \<Rightarrow> timestamp \<Rightarrow> string \<Rightarrow> int \<Rightarrow> string \<Rightarrow> (error + message) \<times> db" where
  "insert_messages d now senderId conversationId content =
     (let row = \<lparr>msg_id = messages_seq d, msg_conversationId = conversationId, msg_senderId = senderId,
                 msg_content = content, msg_createdAt = now\<rparr>;
          d1 = d\<lparr>messages_seq := messages_seq d + 1\<rparr>
      in if msg_id row \<in> set (map msg_id (messages d))
            \<or> conversationId \<notin> conversation_ids d \<or> senderId \<notin> user_ids d
         then (Inl (DatabaseError ''messages''), d1)
         else (Inr row, d1\<lparr>messages := messages d @ [row]\<rparr>))"

definition insert_contacts :: "db \<Rightarrow> timestamp \<Rightarrow> string \<Rightarrow> string \<Rightarrow> (error + contact) \<times> db" where
  "insert_contacts d now userId contactId =
     (let row = \<lparr>ct_id = contacts_seq d, ct_userId = userId, ct_contactId = contactId, ct_createdAt = now\<rparr>;
          d1 = d\<lparr>contacts_seq := contacts_seq d + 1\<rparr>
      in if ct_id row \<in> set (map ct_id (contacts d)) \<or> userId \<notin> user_ids d \<or> contactId \<notin> user_ids d
         then (Inl (DatabaseError ''contacts''), d1)
         else (Inr row, d1\<lparr>contacts := contacts d @ [row]\<rparr>))"

section \<open>The store (server/storage.ts)\<close>

subsection \<open>Conversations\<close>

record conversationWithMembers =
  cm_conversation :: conversation
  cm_members :: "user list"

text \<open>
  \<^verbatim>\<open>getConversation(id)\<close>: the first conversation row with that id, or
  undefined; then its membership rows inner-joined with the users table.  An
  id that is \<^verbatim>\<open>NaN\<close> or outside the 32-bit range of the column is
  not a valid parameter and the query is rejected.
\<close>

definition join_users :: "db \<Rightarrow> string \<Rightarrow> user list" where
  "join_users d uid = filter (\<lambda>u. u_id u = uid) (users d)"

definition getConversation :: "db \<Rightarrow> jsnum \<Rightarrow> error + conversationWithMembers option" where
  "getConversation d idn =
     (case idn of
        NaN \<Rightarrow> Inl (DatabaseError ''conversations'')
      | Num i \<Rightarrow>
          if \<not> int4 i then Inl (DatabaseError ''conversations'')
          else
            (case filter (\<lambda>c. c_id c = i) (conversations d) of
               [] \<Rightarrow> Inr None
             | conversation # _ \<Rightarrow>
                 Inr (Some \<lparr>cm_conversation = conversation,
                            cm_members = concat (map (\<lambda>m. join_users d (m_userId m))
                                               (filter (\<lambda>m. m_conversationId m = i) (conversationMembers d)))\<rparr>)))"

text \<open>
  \<^verbatim>\<open>createConversation(userId, participantId)\<close>: two statements, one
  after the other, each with its own clock reading.  The first inserts the
  conversation row; the second inserts both membership rows.  When the second
  throws, the function rejects with that error and the first statement's row
  stays: nothing undoes it.
\<close>

definition createConversation ::
  "db \<Rightarrow> timestamp \<Rightarrow> timestamp \<Rightarrow> string \<Rightarrow> string \<Rightarrow> (error + conversation) \<times> db" where
  "createConversation d now1 now2 userId participantId =
     (case insert_conversations d now1 False of
        (Inl e, d1) \<Rightarrow> (Inl e, d1)
      | (Inr newConv, d1) \<Rightarrow>
          (case insert_conversationMembers d1 now2 [(c_id newConv, userId), (c_id newConv, participantId)] of
             (Inl e, d2) \<Rightarrow> (Inl e, d2)
           | (Inr _, d2) \<Rightarrow> (Inr newConv, d2)))"

text \<open>
  The integrity constraints of the schema, as an invariant of database states:
  primary keys are unique, every serial id lies below its sequence, and every
  foreign key refers to an existing row.
\<close>

definition wf_db :: "db \<Rightarrow> bool" where
  "wf_db d \<longleftrightarrow>
     distinct (map u_id (users d)) \<and>
     distinct (map c_id (conversations d)) \<and>
     (\<forall>c \<in> set (conversations d). c_id c < conversations_seq d) \<and>
     (\<forall>m \<in> set (conversationMembers d). m_id m < conversationMembers_seq d
          \<and> m_conversationId m \<in> conversation_ids d \<and> m_userId m \<in> user_ids d) \<and>
     (\<forall>m \<in> set (messages d). msg_id m < messages_seq d
          \<and> msg_conversationId m \<in> conversation_ids d \<and> msg_senderId m \<in> user_ids d) \<and>
     (\<forall>c \<in> set (contacts d). ct_id c < contacts_seq d
          \<and> ct_userId c \<in> user_ids d \<and> ct_contactId c \<in> user_ids d)"


subsection \<open>Contacts\<close>

text \<open>
  \<^verbatim>\<open>getContacts(userId)\<close>: the caller's contact rows inner-joined with
  the users table on the contact's id.
\<close>

definition getContacts :: "db \<Rightarrow> string \<Rightarrow> user list" where
  "getContacts d userId =
     concat (map (\<lambda>c. join_users d (ct_contactId c)) (filter (\<lambda>c. ct_userId c = userId) (contacts d)))"

text \<open>
  \<^verbatim>\<open>addContact(userId, contactUsername)\<close>: the identifier is looked up
  in the email column.  Both failures are thrown as plain
  \<^verbatim>\<open>new Error(message)\<close>.
\<close>

definition addContact :: "db \<Rightarrow> timestamp \<Rightarrow> string \<Rightarrow> string \<Rightarrow> (error + user) \<times> db" where
  "addContact d now userId contactUsername =
     (case filter (\<lambda>u. u_email u = Some contactUsername) (users d) of
        [] \<Rightarrow> (Inl (Error ''User not found''), d)
      | contactUser # _ \<Rightarrow>
          if u_id contactUser = userId then (Inl (Error ''Cannot add yourself as a contact''), d)
          else (case filter (\<lambda>c. ct_userId c = userId \<and> ct_contactId c = u_id contactUser) (contacts d) of
                  existing # _ \<Rightarrow> (Inr contactUser, d)
                | [] \<Rightarrow>
                    (case insert_contacts d now userId (u_id contactUser) of
                       (Inl e, d') \<Rightarrow> (Inl e, d')
                     | (Inr _, d') \<Rightarrow> (Inr contactUser, d'))))"

subsection \<open>Messages\<close>

record messageWithSender =
  ms_message :: message
  ms_sender :: user

text \<open>
  The clauses that \<^verbatim>\<open>.limit(limit)\<close> and
  \<^verbatim>\<open>.offset(offset)\<close> add to the query.  The query builder writes
  a LIMIT clause only for a number that is at least zero, and an OFFSET clause
  only for a number that is neither zero nor \<^verbatim>\<open>NaN\<close>; without the
  clause the rows are not cut.  PostgreSQL refuses a negative OFFSET and a
  value outside the 64-bit range.
\<close>

definition limit_clause :: "jsnum \<Rightarrow> 'a list \<Rightarrow> error + 'a list" where
  "limit_clause limit rows =
     (case limit of
        NaN \<Rightarrow> Inr rows
      | Num l \<Rightarrow>
          if l < 0 then Inr rows
          else if int8_max < l then Inl (DatabaseError ''LIMIT'')
          else Inr (take (nat l) rows))"

definition offset_clause :: "jsnum \<Rightarrow> 'a list \<Rightarrow> error + 'a list" where
  "offset_clause offset rows =
     (case offset of
        NaN \<Rightarrow> Inr rows
      | Num off \<Rightarrow>
          if off = 0 then Inr rows
          else if off < 0 \<or> int8_max < off then Inl (DatabaseError ''OFFSET'')
          else Inr (drop (nat off) rows))"

text \<open>
  \<^verbatim>\<open>getMessages(conversationId, limit = 50, offset = 0)\<close>: the two
  optional parameters take their defaults when the caller leaves them out.
  The rows of the conversation are joined with their senders, ordered by
  creation time ascending, then cut by OFFSET and LIMIT.  The store itself
  checks neither number.
\<close>

definition getMessages :: "db \<Rightarrow> jsnum \<Rightarrow> jsnum option \<Rightarrow> jsnum option \<Rightarrow> error + messageWithSender list" where
  "getMessages d conversationId limit_arg offset_arg =
     (let limit = (case limit_arg of None \<Rightarrow> Num 50 | Some l \<Rightarrow> l);
          offset = (case offset_arg of None \<Rightarrow> Num 0 | Some off \<Rightarrow> off)
      in case conversationId of
           NaN \<Rightarrow> Inl (DatabaseError ''messages'')
         | Num cid \<Rightarrow>
             if \<not> int4 cid then Inl (DatabaseError ''messages'')
             else
               (let msgs = sort_key (\<lambda>r. msg_createdAt (ms_message r))
                             (concat (map (\<lambda>m. map (\<lambda>u. \<lparr>ms_message = m, ms_sender = u\<rparr>) (join_users d (msg_senderId m)))
                                          (filter (\<lambda>m. msg_conversationId m = cid) (messages d))))
                in case offset_clause offset msgs of
                     Inl err \<Rightarrow> Inl err
                   | Inr rows \<Rightarrow> limit_clause limit rows))"

text \<open>
  \<^verbatim>\<open>createMessage\<close>: one insert.  A conversation id that is
  \<^verbatim>\<open>NaN\<close> or outside the 32-bit range of the column is refused.
\<close>

definition createMessage :: "db \<Rightarrow> timestamp \<Rightarrow> string \<Rightarrow> jsnum \<Rightarrow> string \<Rightarrow> (error + message) \<times> db" where
  "createMessage d now senderId conversationId content =
     (case conversationId of
        NaN \<Rightarrow> (Inl (DatabaseError ''messages''), d)
      | Num cid \<Rightarrow>
          if \<not> int4 cid then (Inl (DatabaseError ''messages''), d)
          else insert_messages d now senderId cid content)"

subsection \<open>The conversation list\<close>

record conversationSummary =
  cs_conversation :: conversation
  cs_lastMessage :: "message option"
  cs_unreadCount :: int
  cs_otherMember :: "user option"

definition lastMsg :: "db \<Rightarrow> int \<Rightarrow> message option" where
  "lastMsg d cid =
     (case take 1 (sort_key (\<lambda>m. - msg_createdAt m) (filter (\<lambda>m. msg_conversationId m = cid) (messages d))) of
        [] \<Rightarrow> None
      | m # _ \<Rightarrow> Some m)"

definition otherMember :: "db \<Rightarrow> string \<Rightarrow> conversation \<Rightarrow> user option" where
  "otherMember d userId conv =
     (if \<not> c_isGroup conv then
        (case concat (map (\<lambda>m. join_users d (m_userId m))
                       (filter (\<lambda>m. m_conversationId m = c_id conv \<and> m_userId m \<noteq> userId) (conversationMembers d))) of
           [] \<Rightarrow> None
         | member # _ \<Rightarrow> Some member)
      else None)"

definition enrich :: "db \<Rightarrow> string \<Rightarrow> conversation \<Rightarrow> conversationSummary" where
  "enrich d userId conv =
     \<lparr>cs_conversation = conv, cs_lastMessage = lastMsg d (c_id conv), cs_unreadCount = 0,
      cs_otherMember = otherMember d userId conv\<rparr>"

text \<open>
  The comparator's key
  \<^verbatim>\<open>a.lastMessage?.createdAt.getTime() || a.createdAt.getTime()\<close>:
  the operator \<^verbatim>\<open>||\<close> takes its right operand when the left one is
  undefined or zero.
\<close>

definition sort_time :: "conversationSummary \<Rightarrow> int" where
  "sort_time a =
     (case cs_lastMessage a of
        None \<Rightarrow> c_createdAt (cs_conversation a)
      | Some m \<Rightarrow> if msg_createdAt m \<noteq> 0 then msg_createdAt m else c_createdAt (cs_conversation a))"

definition getConversations :: "db \<Rightarrow> string \<Rightarrow> conversationSummary list" where
  "getConversations d userId =
     (let memberships = filter (\<lambda>m. m_userId m = userId) (conversationMembers d);
          conversationIds = map m_conversationId memberships
      in if length conversationIds = 0 then []
         else
           (let userConversations = sort_key (\<lambda>c. - c_createdAt c)
                                      (filter (\<lambda>c. c_id c \<in> set conversationIds) (conversations d));
                enriched = map (enrich d userId) userConversations
            in sort_key (\<lambda>a. - sort_time a) enriched))"

subsection \<open>User search\<close>

text \<open>
  The SQL operator LIKE: \<^verbatim>\<open>%\<close> matches any run of characters,
  \<^verbatim>\<open>_\<close> matches any one character, a backslash makes the next
  pattern character literal, every other pattern character matches itself and
  nothing else (upper and lower case are different characters).  The pattern of
  \<^verbatim>\<open>searchUsers\<close> always ends in \<^verbatim>\<open>%\<close>, so it never
  ends in a lone backslash.
\<close>

fun like :: "string \<Rightarrow> string \<Rightarrow> bool" where
  "like [] s = (s = [])"
| "like (p # ps) s =
     (if p = CHR ''%'' then
        like ps s \<or> (case s of [] \<Rightarrow> False | _ # s' \<Rightarrow> like (p # ps) s')
      else if p = CHR ''_'' then
        (case s of [] \<Rightarrow> False | _ # s' \<Rightarrow> like ps s')
      else if p = CHR 0x5C then
        (case ps of
           [] \<Rightarrow> False
         | q # qs \<Rightarrow> (case s of [] \<Rightarrow> False | c # s' \<Rightarrow> c = q \<and> like qs s'))
      else
        (case s of [] \<Rightarrow> False | c # s' \<Rightarrow> c = p \<and> like ps s'))"

text \<open>A comparison with a NULL column is not true.\<close>

definition like_column :: "string option \<Rightarrow> string \<Rightarrow> bool" where
  "like_column col pat = (case col of None \<Rightarrow> False | Some s \<Rightarrow> like pat s)"

definition searchUsers :: "db \<Rightarrow> string \<Rightarrow> user list" where
  "searchUsers d query =
     take 10 (filter (\<lambda>u. like_column (u_email u) (''%'' @ query @ ''%'')
                          \<or> like_column (u_firstName u) (''%'' @ query @ ''%'')
                          \<or> like_column (u_lastName u) (''%'' @ query @ ''%''))
                     (users d))"

section \<open>The REST surface (server/routes.ts)\<close>

text \<open>
  What a handler does with its request: it sends a JSON body with a status, or
  a failure body \<^verbatim>\<open>{message}\<close> whose message is a literal or the
  caught error's own message, or it lets a rejected promise escape without
  sending anything.  The authentication middleware has run before every
  handler; \<open>sub\<close> is the id of the authenticated user.
\<close>

datatype 'a response = Json nat 'a | Failure nat string | FailureOf nat error | Unhandled error

text \<open>
  \<^verbatim>\<open>parseInt(string)\<close> with no radix: leading white space is
  skipped, a sign is read, a prefix \<^verbatim>\<open>0x\<close> selects base sixteen, and
  the longest run of digits is converted; with no digit the result is
  \<^verbatim>\<open>NaN\<close>.  Characters are bytes here and the value is an exact
  integer.
\<close>

definition is_whitespace :: "char \<Rightarrow> bool" where
  "is_whitespace c \<longleftrightarrow> c \<in> set [CHR '' '', CHR 0x09, CHR 0x0A, CHR 0x0B, CHR 0x0C, CHR 0x0D]"

definition digit_value :: "char \<Rightarrow> nat option" where
  "digit_value c =
     (let n = (of_char c :: nat)
      in if 48 \<le> n \<and> n \<le> 57 then Some (n - 48)
         else if 97 \<le> n \<and> n \<le> 122 then Some (n - 87)
         else if 65 \<le> n \<and> n \<le> 90 then Some (n - 55)
         else None)"

fun parse_digits :: "nat \<Rightarrow> string \<Rightarrow> nat option \<Rightarrow> nat option" where
  "parse_digits radix [] acc = acc"
| "parse_digits radix (c # cs) acc =
     (case digit_value c of
        None \<Rightarrow> acc
      | Some v \<Rightarrow>
          if v < radix then parse_digits radix cs (Some (radix * (case acc of None \<Rightarrow> 0 | Some a \<Rightarrow> a) + v))
          else acc)"

definition parseInt :: "string \<Rightarrow> jsnum" where
  "parseInt s =
     (let s1 = dropWhile is_whitespace s;
          (neg, s2) = (case s1 of
                         [] \<Rightarrow> (False, s1)
                       | c # cs \<Rightarrow> if c = CHR ''-'' then (True, cs)
                                  else if c = CHR ''+'' then (False, cs) else (False, s1));
          (radix, s3) = (case s2 of
                           a # b # cs \<Rightarrow> if a = CHR ''0'' \<and> (b = CHR ''x'' \<or> b = CHR ''X'') then (16, cs)
                                         else (10, s2)
                         | _ \<Rightarrow> (10, s2))
      in case parse_digits radix s3 None of
           None \<Rightarrow> NaN
         | Some n \<Rightarrow> Num (if neg then - int n else int n))"

text \<open>
  \<^verbatim>\<open>POST /api/contacts\<close>.  The body's \<^verbatim>\<open>username\<close> is
  \<open>None\<close> when the schema parse throws.  Whatever is caught is an
  \<^verbatim>\<open>Error\<close> and is answered with status 400.
\<close>

definition contacts_add_handler :: "db \<Rightarrow> timestamp \<Rightarrow> string \<Rightarrow> string option \<Rightarrow> user response \<times> db" where
  "contacts_add_handler d now sub body =
     (case (case body of None \<Rightarrow> (Inl ZodError, d) | Some username \<Rightarrow> addContact d now sub username) of
        (Inr contact, d') \<Rightarrow> (Json 201 contact, d')
      | (Inl err, d') \<Rightarrow>
          if instanceof_Error err then (FailureOf 400 err, d')
          else (Failure 500 ''Internal server error'', d'))"

text \<open>
  \<^verbatim>\<open>GET /api/users/search\<close>.  The schema asks for a query string of
  length at least one; a failed parse and a failed search are both answered
  with status 400.
\<close>

definition users_search_handler :: "db \<Rightarrow> string option \<Rightarrow> user list response" where
  "users_search_handler d query_param =
     (case query_param of
        None \<Rightarrow> Failure 400 ''Invalid query''
      | Some query \<Rightarrow> if length query < 1 then Failure 400 ''Invalid query'' else Json 200 (searchUsers d query))"

text \<open>\<^verbatim>\<open>POST /api/conversations\<close>.\<close>

definition conversations_create_handler ::
  "db \<Rightarrow> timestamp \<Rightarrow> timestamp \<Rightarrow> string \<Rightarrow> string option \<Rightarrow> conversation response \<times> db" where
  "conversations_create_handler d now1 now2 sub body =
     (case body of
        None \<Rightarrow> (Failure 400 ''Failed to create conversation'', d)
      | Some participantId \<Rightarrow>
          (case createConversation d now1 now2 sub participantId of
             (Inr conversation, d') \<Rightarrow> (Json 201 conversation, d')
           | (Inl err, d') \<Rightarrow> (Failure 400 ''Failed to create conversation'', d')))"

definition is_member :: "conversationWithMembers option \<Rightarrow> string \<Rightarrow> bool" where
  "is_member conversation sub =
     (case conversation of None \<Rightarrow> False | Some c \<Rightarrow> (\<exists>m \<in> set (cm_members c). u_id m = sub))"

text \<open>
  \<^verbatim>\<open>GET /api/conversations/:id/messages\<close>.  The two query parameters
  are read as
  \<^verbatim>\<open>req.query.limit ? parseInt(req.query.limit) : 50\<close> and
  \<^verbatim>\<open>req.query.offset ? parseInt(req.query.offset) : 0\<close>: an absent
  or empty parameter takes the default, any other goes through
  \<^verbatim>\<open>parseInt\<close> and is handed to the store as it is.  The handler
  has no \<^verbatim>\<open>try\<close>.
\<close>

definition query_number :: "string option \<Rightarrow> int \<Rightarrow> jsnum" where
  "query_number param dflt =
     (case param of None \<Rightarrow> Num dflt | Some s \<Rightarrow> if s \<noteq> [] then parseInt s else Num dflt)"

definition messages_list_handler ::
  "db \<Rightarrow> string \<Rightarrow> string \<Rightarrow> string option \<Rightarrow> string option \<Rightarrow> messageWithSender list response" where
  "messages_list_handler d sub id_param limit_param offset_param =
     (let id = parseInt id_param
      in case getConversation d id of
           Inl err \<Rightarrow> Unhandled err
         | Inr conversation \<Rightarrow>
             if \<not> is_member conversation sub then Failure 401 ''Unauthorized''
             else
               (let limit = query_number limit_param 50;
                    offset = query_number offset_param 0
                in case getMessages d id (Some limit) (Some offset) of
                     Inl err \<Rightarrow> Unhandled err
                   | Inr msgs \<Rightarrow> Json 200 msgs))"

section \<open>The push hub (server/routes.ts)\<close>

text \<open>
  A value of a parsed JSON message, as far as the hub looks at it.  An object
  or array is a reference; as a key of a \<^verbatim>\<open>Map\<close> it equals only
  itself.
\<close>

datatype jsval = JUndefined | JNull | JBool bool | JNumber int | JString string | JObject nat

definition truthy :: "jsval \<Rightarrow> bool" where
  "truthy v =
     (case v of
        JUndefined \<Rightarrow> False
      | JNull \<Rightarrow> False
      | JBool b \<Rightarrow> b
      | JNumber n \<Rightarrow> n \<noteq> 0
      | JString s \<Rightarrow> s \<noteq> []
      | JObject _ \<Rightarrow> True)"

datatype readyState = CONNECTING | OPEN | CLOSING | CLOSED

text \<open>
  A connection object: the transport's state and the property
  \<^verbatim>\<open>conversationId\<close> that the join handler stores on it.
\<close>

record websocket =
  ws_readyState :: readyState
  ws_conversationId :: jsval

record envelope =
  env_type :: string
  env_data :: message

text \<open>
  The hub: the connection objects (a connection's handle is its index), the map
  \<^verbatim>\<open>clients\<close> from conversation id to a set of handles (a JavaScript
  \<^verbatim>\<open>Set\<close>, kept as a duplicate-free list in insertion order), and the
  log of every \<^verbatim>\<open>send\<close> call.
\<close>

record hub =
  sockets :: "websocket list"
  clients :: "jsval \<Rightarrow> nat list option"
  sent :: "(nat \<times> envelope) list"

definition set_add :: "nat list \<Rightarrow> nat \<Rightarrow> nat list" where
  "set_add s w = (if w \<in> set s then s else s @ [w])"

definition set_delete :: "nat list \<Rightarrow> nat \<Rightarrow> nat list" where
  "set_delete s w = removeAll w s"

text \<open>
  The data of an inbound frame: \<open>Unparseable\<close> when
  \<^verbatim>\<open>JSON.parse\<close> or the property access throws (the handler's
  \<^verbatim>\<open>catch\<close> logs it), otherwise the message's \<^verbatim>\<open>type\<close> and
  \<^verbatim>\<open>conversationId\<close>.
\<close>

datatype wsdata = Unparseable | Parsed jsval jsval

definition on_message :: "hub \<Rightarrow> nat \<Rightarrow> wsdata \<Rightarrow> hub" where
  "on_message h ws data =
     (case data of
        Unparseable \<Rightarrow> h
      | Parsed msg_type conversationId \<Rightarrow>
          if msg_type = JString ''join'' then
            (let cl = (if clients h conversationId = None then (clients h)(conversationId \<mapsto> []) else clients h);
                 cl' = (case cl conversationId of None \<Rightarrow> cl | Some s \<Rightarrow> cl(conversationId \<mapsto> set_add s ws))
             in h\<lparr>clients := cl',
                  sockets := (sockets h)[ws := (sockets h ! ws)\<lparr>ws_conversationId := conversationId\<rparr>]\<rparr>)
          else h)"

definition on_close :: "hub \<Rightarrow> nat \<Rightarrow> hub" where
  "on_close h ws =
     (let conversationId = ws_conversationId (sockets h ! ws)
      in if truthy conversationId \<and> clients h conversationId \<noteq> None then
           (case clients h conversationId of
              None \<Rightarrow> h
            | Some s \<Rightarrow> h\<lparr>clients := (clients h)(conversationId \<mapsto> set_delete s ws)\<rparr>)
         else h)"

definition broadcastMessage :: "hub \<Rightarrow> jsnum \<Rightarrow> message \<Rightarrow> hub" where
  "broadcastMessage h conversationId msg =
     (case conversationId of
        NaN \<Rightarrow> h
      | Num cid \<Rightarrow>
          (case clients h (JNumber cid) of
             None \<Rightarrow> h
           | Some s \<Rightarrow>
               (let payload = \<lparr>env_type = ''message:new'', env_data = msg\<rparr>
                in h\<lparr>sent := sent h @ map (\<lambda>client. (client, payload))
                                       (filter (\<lambda>client. ws_readyState (sockets h ! client) = OPEN) s)\<rparr>)))"

text \<open>
  The events of the hub.  \<open>Connect\<close> creates a connection object with an
  open transport and the next handle.  \<open>Closing\<close> and \<open>Close\<close> are the
  transport's own transitions; at \<open>Close\<close> the transport is closed for good
  and then the close handler runs.  An event that names no existing connection
  does nothing.
\<close>

datatype event = Connect | Frame nat wsdata | Closing nat | Close nat | Publish jsnum message

definition set_readyState :: "hub \<Rightarrow> nat \<Rightarrow> readyState \<Rightarrow> hub" where
  "set_readyState h ws st = h\<lparr>sockets := (sockets h)[ws := (sockets h ! ws)\<lparr>ws_readyState := st\<rparr>]\<rparr>"

definition hub_step :: "hub \<Rightarrow> event \<Rightarrow> hub" where
  "hub_step h ev =
     (case ev of
        Connect \<Rightarrow> h\<lparr>sockets := sockets h @ [\<lparr>ws_readyState = OPEN, ws_conversationId = JUndefined\<rparr>]\<rparr>
      | Frame ws data \<Rightarrow> if ws < length (sockets h) then on_message h ws data else h
      | Closing ws \<Rightarrow>
          if ws < length (sockets h) \<and> ws_readyState (sockets h ! ws) = OPEN then set_readyState h ws CLOSING else h
      | Close ws \<Rightarrow> if ws < length (sockets h) then on_close (set_readyState h ws CLOSED) ws else h
      | Publish conversationId msg \<Rightarrow> broadcastMessage h conversationId msg)"

definition hub_run :: "hub \<Rightarrow> event list \<Rightarrow> hub" where
  "hub_run h evs = foldl hub_step h evs"

definition hub_init :: hub where
  "hub_init = \<lparr>sockets = [], clients = Map.empty, sent = []\<rparr>"

definition sent_to :: "nat \<Rightarrow> hub \<Rightarrow> envelope list" where
  "sent_to ws h = map snd (filter (\<lambda>p. fst p = ws) (sent h))"

text \<open>
  \<^verbatim>\<open>POST /api/conversations/:id/messages\<close>.  The body's
  \<^verbatim>\<open>content\<close> is \<open>None\<close> when it is missing or not a string; the
  schema also refuses the empty string.  Everything thrown inside the
  \<^verbatim>\<open>try\<close> is answered with status 400.
\<close>

definition messages_send_handler ::
  "db \<Rightarrow> hub \<Rightarrow> timestamp \<Rightarrow> string \<Rightarrow> string \<Rightarrow> string option \<Rightarrow> message response \<times> db \<times> hub" where
  "messages_send_handler d h now sub id_param body =
     (let id = parseInt id_param
      in case body of
           None \<Rightarrow> (Failure 400 ''Failed to send message'', d, h)
         | Some content \<Rightarrow>
             if length content < 1 then (Failure 400 ''Failed to send message'', d, h)
             else
               (case getConversation d id of
                  Inl err \<Rightarrow> (Failure 400 ''Failed to send message'', d, h)
                | Inr conversation \<Rightarrow>
                    if \<not> is_member conversation sub then (Failure 401 ''Unauthorized'', d, h)
                    else
                      (case createMessage d now sub id content of
                         (Inl err, d') \<Rightarrow> (Failure 400 ''Failed to send message'', d', h)
                       | (Inr msg, d') \<Rightarrow> (Json 201 msg, d', broadcastMessage h id msg))))"

section \<open>Auxiliary definitions for the proofs\<close>

text \<open>
  The row and the post-state that a successful
  \<^verbatim>\<open>createConversation\<close> produces.
\<close>

definition new_conversation :: "db \<Rightarrow> timestamp \<Rightarrow> conversation" where
  "new_conversation d now = \<lparr>c_id = conversations_seq d, c_name = None, c_isGroup = False, c_createdAt = now\<rparr>"

definition new_members :: "db \<Rightarrow> timestamp \<Rightarrow> string \<Rightarrow> string \<Rightarrow> conversationMember list" where
  "new_members d now u p =
     [\<lparr>m_id = conversationMembers_seq d, m_conversationId = conversations_seq d, m_userId = u, m_joinedAt = now\<rparr>,
      \<lparr>m_id = conversationMembers_seq d + 1, m_conversationId = conversations_seq d, m_userId = p, m_joinedAt = now\<rparr>]"

definition created_db :: "db \<Rightarrow> timestamp \<Rightarrow> timestamp \<Rightarrow> string \<Rightarrow> string \<Rightarrow> db" where
  "created_db d t1 t2 u p =
     d\<lparr>conversations_seq := conversations_seq d + 1,
       conversations := conversations d @ [new_conversation d t1],
       conversationMembers_seq := conversationMembers_seq d + 2,
       conversationMembers := conversationMembers d @ new_members d t2 u p\<rparr>"

text \<open>The contact rows from one user to another.\<close>

definition contact_edges :: "db \<Rightarrow> string \<Rightarrow> string \<Rightarrow> contact list" where
  "contact_edges d userId contactId = filter (\<lambda>c. ct_userId c = userId \<and> ct_contactId c = contactId) (contacts d)"

text \<open>
  For the hub: the subscriber set of a conversation, the envelope that
  \<^verbatim>\<open>broadcastMessage\<close> serialises, whether a connection's transport is
  open or closed for good, the property of a \<^verbatim>\<open>Set\<close> that it holds no
  element twice, and the join frame for a numeric conversation id.
\<close>

definition subscribers :: "hub \<Rightarrow> int \<Rightarrow> nat list" where
  "subscribers h cid = (case clients h (JNumber cid) of None \<Rightarrow> [] | Some s \<Rightarrow> s)"

definition message_new :: "message \<Rightarrow> envelope" where
  "message_new m = \<lparr>env_type = ''message:new'', env_data = m\<rparr>"

definition is_open :: "hub \<Rightarrow> nat \<Rightarrow> bool" where
  "is_open h ws \<longleftrightarrow> ws_readyState (sockets h ! ws) = OPEN"

definition closed :: "nat \<Rightarrow> hub \<Rightarrow> bool" where
  "closed ws h \<longleftrightarrow> ws < length (sockets h) \<and> ws_readyState (sockets h ! ws) = CLOSED"

definition hub_wf :: "hub \<Rightarrow> bool" where
  "hub_wf h \<longleftrightarrow> (\<forall>k s. clients h k = Some s \<longrightarrow> distinct s)"

definition join :: "int \<Rightarrow> wsdata" where
  "join cid = Parsed (JString ''join'') (JNumber cid)"




text \<open>
  The effective timestamp of a conversation in the words of the specification:
  the creation time of its last (latest) message if it has a message, and the
  conversation's own creation time otherwise.  The conversations of a user are
  those with a membership row of the user.
\<close>

definition conversation_times :: "db \<Rightarrow> int \<Rightarrow> timestamp list" where
  "conversation_times d cid = map msg_createdAt (filter (\<lambda>m. msg_conversationId m = cid) (messages d))"

definition effective_timestamp :: "db \<Rightarrow> conversation \<Rightarrow> timestamp" where
  "effective_timestamp d conv =
     (if conversation_times d (c_id conv) = [] then c_createdAt conv
      else Max (set (conversation_times d (c_id conv))))"

definition user_conversations :: "db \<Rightarrow> string \<Rightarrow> conversation list" where
  "user_conversations d userId =
     filter (\<lambda>c. c_id c \<in> m_conversationId ` set (filter (\<lambda>m. m_userId m = userId) (conversationMembers d)))
            (conversations d)"

text \<open>
  For the user search: a query without the LIKE metacharacters; a column that
  is not NULL and contains the query as a contiguous substring, character for
  character; and, in the words of the specification, containment that ignores
  the case of the letters A to Z.
\<close>

definition plain :: "string \<Rightarrow> bool" where
  "plain q \<longleftrightarrow> CHR ''%'' \<notin> set q \<and> CHR ''_'' \<notin> set q \<and> CHR 0x5C \<notin> set q"

definition contains :: "string option \<Rightarrow> string \<Rightarrow> bool" where
  "contains col q = (case col of None \<Rightarrow> False | Some s \<Rightarrow> sublist q s)"

definition to_lower :: "char \<Rightarrow> char" where
  "to_lower c =
     (case map_of (zip ''ABCDEFGHIJKLMNOPQRSTUVWXYZ'' ''abcdefghijklmnopqrstuvwxyz'') c of
        None \<Rightarrow> c
      | Some l \<Rightarrow> l)"

definition contains_ignoring_case :: "string option \<Rightarrow> string \<Rightarrow> bool" where
  "contains_ignoring_case col q = (case col of None \<Rightarrow> False | Some s \<Rightarrow> sublist (map to_lower q) (map to_lower s))"

section \<open>Example states\<close>

definition alice :: user where
  "alice = \<lparr>u_id = ''u1'', u_email = Some ''Alice@example.com'', u_firstName = Some ''Alice'', u_lastName = None\<rparr>"

definition bob :: user where
  "bob = \<lparr>u_id = ''u2'', u_email = Some ''bob@example.com'', u_firstName = Some ''Bob'', u_lastName = Some ''Stone''\<rparr>"

definition db0 :: db where
  "db0 = \<lparr>users = [alice, bob], conversations = [], conversationMembers = [], messages = [], contacts = [],
          conversations_seq = 1, conversationMembers_seq = 1, messages_seq = 1, contacts_seq = 1\<rparr>"

definition db1 :: db where
  "db1 = db0\<lparr>contacts := [\<lparr>ct_id = 1, ct_userId = ''u1'', ct_contactId = ''u2'', ct_createdAt = 5\<rparr>],
             contacts_seq := 2\<rparr>"

definition db2 :: db where
  "db2 = \<lparr>users = [alice, bob],
          conversations = [\<lparr>c_id = 1, c_name = None, c_isGroup = False, c_createdAt = 1000\<rparr>],
          conversationMembers = [\<lparr>m_id = 1, m_conversationId = 1, m_userId = ''u1'', m_joinedAt = 1001\<rparr>,
                                 \<lparr>m_id = 2, m_conversationId = 1, m_userId = ''u2'', m_joinedAt = 1001\<rparr>],
          messages = [], contacts = [],
          conversations_seq = 2, conversationMembers_seq = 3, messages_seq = 1, contacts_seq = 1\<rparr>"

definition hi :: message where
  "hi = \<lparr>msg_id = 1, msg_conversationId = 1, msg_senderId = ''u1'', msg_content = ''hi'', msg_createdAt = 2000\<rparr>"

definition yo :: message where
  "yo = \<lparr>msg_id = 2, msg_conversationId = 1, msg_senderId = ''u2'', msg_content = ''yo'', msg_createdAt = 2001\<rparr>"


definition db4 :: db where
  "db4 = \<lparr>users = [alice, bob],
          conversations = [\<lparr>c_id = 1, c_name = None, c_isGroup = False, c_createdAt = 1000\<rparr>,
                           \<lparr>c_id = 2, c_name = None, c_isGroup = False, c_createdAt = 3000\<rparr>],
          conversationMembers = [\<lparr>m_id = 1, m_conversationId = 1, m_userId = ''u1'', m_joinedAt = 1001\<rparr>,
                                 \<lparr>m_id = 2, m_conversationId = 1, m_userId = ''u2'', m_joinedAt = 1001\<rparr>,
                                 \<lparr>m_id = 3, m_conversationId = 2, m_userId = ''u1'', m_joinedAt = 3001\<rparr>,
                                 \<lparr>m_id = 4, m_conversationId = 2, m_userId = ''u2'', m_joinedAt = 3001\<rparr>],
          messages = [hi, \<lparr>msg_id = 2, msg_conversationId = 1, msg_senderId = ''u2'', msg_content = ''late'',
                             msg_createdAt = 4000\<rparr>],
          contacts = [],
          conversations_seq = 3, conversationMembers_seq = 5, messages_seq = 3, contacts_seq = 1\<rparr>"

section \<open>Conversations: creation and lookup\<close>

lemma filter_unique_key:
  "distinct (map f xs) \<Longrightarrow> k \<in> set (map f xs) \<Longrightarrow> \<exists>x. filter (\<lambda>y. f y = k) xs = [x] \<and> f x = k \<and> x \<in> set xs"
proof (induction xs)
  case Nil then show ?case by simp
next
  case (Cons a xs)
  show ?case
  proof (cases "f a = k")
    case True
    from Cons.prems have "f a \<notin> f ` set xs" by simp
    with True have "\<forall>y \<in> set xs. f y \<noteq> k" by (metis image_eqI)
    then have "filter (\<lambda>y. f y = k) xs = []" by (simp add: filter_empty_conv)
    with True show ?thesis by simp
  next
    case False
    with Cons show ?thesis by auto
  qed
qed

lemma filter_absent_key:
  "k \<notin> set (map f xs) \<Longrightarrow> filter (\<lambda>y. f y = k) xs = []"
  by (induction xs) auto

lemma seq_fresh: "wf_db d \<Longrightarrow> conversations_seq d \<notin> conversation_ids d"
  by (auto simp: wf_db_def conversation_ids_def)

lemma insert_conversations_ok:
  "wf_db d \<Longrightarrow> insert_conversations d now g =
     (Inr \<lparr>c_id = conversations_seq d, c_name = None, c_isGroup = g, c_createdAt = now\<rparr>,
      d\<lparr>conversations_seq := conversations_seq d + 1,
        conversations := conversations d @ [\<lparr>c_id = conversations_seq d, c_name = None, c_isGroup = g, c_createdAt = now\<rparr>]\<rparr>)"
  using seq_fresh[of d] by (simp add: insert_conversations_def Let_def)

lemma member_rows_two:
  "member_rows n now [(c, u), (c', p)] =
     [\<lparr>m_id = n, m_conversationId = c, m_userId = u, m_joinedAt = now\<rparr>,
      \<lparr>m_id = n + 1, m_conversationId = c', m_userId = p, m_joinedAt = now\<rparr>]"
  by (simp add: member_rows_def enumerate_eq_zip upt_rec)

lemma createConversation_ok:
  assumes "wf_db d" "u \<in> user_ids d" "p \<in> user_ids d"
  shows "createConversation d t1 t2 u p = (Inr (new_conversation d t1), created_db d t1 t2 u p)"
proof -
  have fresh: "\<forall>m \<in> set (conversationMembers d). conversationMembers_seq d \<noteq> m_id m \<and> conversationMembers_seq d + 1 \<noteq> m_id m"
    using assms(1) by (fastforce simp: wf_db_def)
  show ?thesis
    using assms fresh
    by (simp add: createConversation_def insert_conversations_ok insert_conversationMembers_def
        member_rows_two Let_def new_conversation_def new_members_def created_db_def conversation_ids_def user_ids_def image_iff)
qed

lemma getConversation_after_create:
  assumes "wf_db d" "u \<in> user_ids d" "p \<in> user_ids d" "int4 (conversations_seq d)"
  shows "\<exists>U P. u_id U = u \<and> u_id P = p \<and> U \<in> set (users d) \<and> P \<in> set (users d) \<and>
     getConversation (created_db d t1 t2 u p) (Num (conversations_seq d)) =
       Inr (Some \<lparr>cm_conversation = new_conversation d t1, cm_members = [U, P]\<rparr>)"
proof -
  from assms(1) have du: "distinct (map u_id (users d))" by (simp add: wf_db_def)
  obtain U where U: "filter (\<lambda>y. u_id y = u) (users d) = [U]" "u_id U = u" "U \<in> set (users d)"
    using filter_unique_key[OF du, of u] assms(2) by (auto simp: user_ids_def)
  obtain P where P: "filter (\<lambda>y. u_id y = p) (users d) = [P]" "u_id P = p" "P \<in> set (users d)"
    using filter_unique_key[OF du, of p] assms(3) by (auto simp: user_ids_def)
  have c0: "filter (\<lambda>c. c_id c = conversations_seq d) (conversations d) = []"
    using seq_fresh[OF assms(1)] by (simp add: conversation_ids_def filter_absent_key)
  have "\<forall>m \<in> set (conversationMembers d). m_conversationId m \<noteq> conversations_seq d"
    using assms(1) seq_fresh[OF assms(1)] by (auto simp: wf_db_def)
  then have m0: "filter (\<lambda>m. m_conversationId m = conversations_seq d) (conversationMembers d) = []"
    by (simp add: filter_empty_conv)
  have "getConversation (created_db d t1 t2 u p) (Num (conversations_seq d)) =
       Inr (Some \<lparr>cm_conversation = new_conversation d t1, cm_members = [U, P]\<rparr>)"
    using assms(4)
    by (simp add: created_db_def getConversation_def c0 m0 new_conversation_def new_members_def join_users_def U P)
  with U P show ?thesis by blast
qed

lemma wf_db0: "wf_db db0"
  by (simp add: wf_db_def db0_def alice_def bob_def)

lemma user_ids_db0: "user_ids db0 = {''u1'', ''u2''}"
  by (auto simp: user_ids_def db0_def alice_def bob_def)

lemma int4_db0: "int4 (conversations_seq db0)"
  by (simp add: int4_def db0_def)

text \<open>
  Claim C1 (contradicted by the code).  \<^verbatim>\<open>createConversation\<close> is
  two separate statements with no transaction around them.  When the second
  one fails (here the participant id refers to no user, so the membership
  insert violates its foreign key), the call rejects, the conversation row of
  the first statement stays in the table, and no membership row exists for it:
  \<^verbatim>\<open>getConversation\<close> then returns the conversation with an empty
  member list.
\<close>

theorem createConversation_not_atomic:
  "createConversation db0 1000 1001 ''u1'' ''ghost'' =
     (Inl (DatabaseError ''conversation_members''),
      db0\<lparr>conversations := [\<lparr>c_id = 1, c_name = None, c_isGroup = False, c_createdAt = 1000\<rparr>],
          conversations_seq := 2, conversationMembers_seq := 3\<rparr>)
   \<and> conversationMembers (snd (createConversation db0 1000 1001 ''u1'' ''ghost'')) = []
   \<and> getConversation (snd (createConversation db0 1000 1001 ''u1'' ''ghost'')) (Num 1) =
       Inr (Some \<lparr>cm_conversation = \<lparr>c_id = 1, c_name = None, c_isGroup = False, c_createdAt = 1000\<rparr>,
                  cm_members = []\<rparr>)"
  by (simp add: createConversation_def insert_conversations_def insert_conversationMembers_def member_rows_def
      getConversation_def int4_def conversation_ids_def user_ids_def db0_def alice_def bob_def Let_def)

text \<open>
  Claim C2.  In a database that satisfies the schema's constraints and whose
  next conversation id fits the 32-bit id column, for all existing users
  \<open>userId\<close> and \<open>participantId\<close>,
  \<^verbatim>\<open>createConversation\<close> succeeds and \<^verbatim>\<open>getConversation\<close>
  on the returned id yields that conversation with a member list that holds
  exactly the two users: the ids of the members, counted with multiplicity, are
  \<open>userId\<close> and \<open>participantId\<close>.
\<close>

theorem createConversation_then_getConversation:
  assumes "wf_db d" and "userId \<in> user_ids d" and "participantId \<in> user_ids d"
    and "int4 (conversations_seq d)"
  shows "\<exists>conv d' cm. createConversation d now1 now2 userId participantId = (Inr conv, d')
           \<and> getConversation d' (Num (c_id conv)) = Inr (Some cm)
           \<and> cm_conversation cm = conv
           \<and> mset (map u_id (cm_members cm)) = {#userId, participantId#}
           \<and> set (cm_members cm) \<subseteq> set (users d)"
proof -
  let ?d' = "created_db d now1 now2 userId participantId"
  have ok: "createConversation d now1 now2 userId participantId = (Inr (new_conversation d now1), ?d')"
    by (rule createConversation_ok[OF assms(1-3)])
  obtain U P where UP: "u_id U = userId" "u_id P = participantId" "U \<in> set (users d)" "P \<in> set (users d)"
     "getConversation ?d' (Num (conversations_seq d)) =
        Inr (Some \<lparr>cm_conversation = new_conversation d now1, cm_members = [U, P]\<rparr>)"
    using getConversation_after_create[OF assms] by blast
  have cid: "c_id (new_conversation d now1) = conversations_seq d"
    by (simp add: new_conversation_def)
  show ?thesis
    apply (rule exI[of _ "new_conversation d now1"])
    apply (rule exI[of _ ?d'])
    apply (rule exI[of _ "\<lparr>cm_conversation = new_conversation d now1, cm_members = [U, P]\<rparr>"])
    using ok UP cid by simp
qed

theorem createConversation_then_getConversation_witness:
  "wf_db db0 \<and> ''u1'' \<in> user_ids db0 \<and> ''u2'' \<in> user_ids db0 \<and> int4 (conversations_seq db0) \<and>
   (\<exists>conv d' cm. createConversation db0 1000 1001 ''u1'' ''u2'' = (Inr conv, d')
           \<and> getConversation d' (Num (c_id conv)) = Inr (Some cm)
           \<and> cm_conversation cm = conv
           \<and> mset (map u_id (cm_members cm)) = {#''u1'', ''u2''#}
           \<and> set (cm_members cm) \<subseteq> set (users db0))"
proof -
  have a: "''u1'' \<in> user_ids db0" and b: "''u2'' \<in> user_ids db0"
    by (simp_all add: user_ids_db0)
  from createConversation_then_getConversation[OF wf_db0 a b int4_db0, of 1000 1001] wf_db0 a b int4_db0
  show ?thesis by blast
qed

text \<open>
  Claim C10.  Neither the route nor the store compares the two ids: in a
  database that satisfies the schema's constraints and whose next conversation
  id fits the 32-bit id column, for every existing user \<open>u\<close>,
  \<^verbatim>\<open>createConversation(u, u)\<close> succeeds (the
  route answers 201), the new conversation is not a group, its two membership
  rows both refer to \<open>u\<close>, and \<^verbatim>\<open>getConversation\<close> lists the one
  user \<open>u\<close> twice.
\<close>

theorem createConversation_with_oneself:
  assumes "wf_db d" and "u \<in> user_ids d" and "int4 (conversations_seq d)"
  shows "\<exists>conv d' U. createConversation d now1 now2 u u = (Inr conv, d')
           \<and> conversations_create_handler d now1 now2 u (Some u) = (Json 201 conv, d')
           \<and> \<not> c_isGroup conv
           \<and> map m_userId (filter (\<lambda>m. m_conversationId m = c_id conv) (conversationMembers d')) = [u, u]
           \<and> getConversation d' (Num (c_id conv)) = Inr (Some \<lparr>cm_conversation = conv, cm_members = [U, U]\<rparr>)
           \<and> u_id U = u"
proof -
  let ?conv = "new_conversation d now1"
  let ?d' = "created_db d now1 now2 u u"
  have ok: "createConversation d now1 now2 u u = (Inr ?conv, ?d')"
    by (rule createConversation_ok[OF assms(1,2) assms(2)])
  obtain U P where UP: "u_id U = u" "u_id P = u" "U \<in> set (users d)" "P \<in> set (users d)"
     "getConversation ?d' (Num (conversations_seq d)) = Inr (Some \<lparr>cm_conversation = ?conv, cm_members = [U, P]\<rparr>)"
    using getConversation_after_create[OF assms(1,2) assms(2,3)] by blast
  from assms(1) have "distinct (map u_id (users d))" by (simp add: wf_db_def)
  with UP(1-4) have "P = U" by (metis distinct_map inj_on_def)
  have "\<forall>m \<in> set (conversationMembers d). m_conversationId m \<noteq> conversations_seq d"
    using assms(1) seq_fresh[OF assms(1)] by (auto simp: wf_db_def)
  then have m0: "filter (\<lambda>m. m_conversationId m = conversations_seq d) (conversationMembers d) = []"
    by (simp add: filter_empty_conv)
  have rows: "map m_userId (filter (\<lambda>m. m_conversationId m = c_id ?conv) (conversationMembers ?d')) = [u, u]"
    by (simp add: created_db_def m0 new_conversation_def new_members_def)
  have handler: "conversations_create_handler d now1 now2 u (Some u) = (Json 201 ?conv, ?d')"
    by (simp add: conversations_create_handler_def ok)
  have cid: "c_id ?conv = conversations_seq d" "\<not> c_isGroup ?conv"
    by (simp_all add: new_conversation_def)
  show ?thesis
    apply (rule exI[of _ ?conv])
    apply (rule exI[of _ ?d'])
    apply (rule exI[of _ U])
    using ok handler rows UP \<open>P = U\<close> cid by simp
qed

theorem createConversation_with_oneself_witness:
  "wf_db db0 \<and> ''u1'' \<in> user_ids db0 \<and> int4 (conversations_seq db0) \<and>
   (\<exists>conv d' U. createConversation db0 1000 1001 ''u1'' ''u1'' = (Inr conv, d')
           \<and> conversations_create_handler db0 1000 1001 ''u1'' (Some ''u1'') = (Json 201 conv, d')
           \<and> \<not> c_isGroup conv
           \<and> map m_userId (filter (\<lambda>m. m_conversationId m = c_id conv) (conversationMembers d')) = [''u1'', ''u1'']
           \<and> getConversation d' (Num (c_id conv)) = Inr (Some \<lparr>cm_conversation = conv, cm_members = [U, U]\<rparr>)
           \<and> u_id U = ''u1'')"
proof -
  have a: "''u1'' \<in> user_ids db0"
    by (simp add: user_ids_db0)
  from createConversation_with_oneself[OF wf_db0 a int4_db0, of 1000 1001] wf_db0 a int4_db0
  show ?thesis by blast
qed

section \<open>Contacts\<close>

lemma addContact_success:
  assumes "addContact d now userId x = (Inr c, d1)"
  shows "users d1 = users d"
    and "\<exists>rest. filter (\<lambda>u. u_email u = Some x) (users d) = c # rest"
    and "u_id c \<noteq> userId"
    and "contact_edges d1 userId (u_id c) \<noteq> []"
    and "contact_edges d userId (u_id c) \<noteq> [] \<longrightarrow> d1 = d"
    and "contact_edges d userId (u_id c) = [] \<longrightarrow>
           contacts d1 = contacts d @ [\<lparr>ct_id = contacts_seq d, ct_userId = userId, ct_contactId = u_id c, ct_createdAt = now\<rparr>]"
  using assms
  by (auto simp: addContact_def insert_contacts_def contact_edges_def Let_def
           split: list.splits if_splits prod.splits sum.splits)

text \<open>
  Claim C8.  \<^verbatim>\<open>addContact\<close> is idempotent: when a call succeeds with
  contact \<open>c\<close> and state \<open>d1\<close>, a second call with the same arguments (at
  any later time) returns the same contact and leaves the state \<open>d1\<close> as it
  is, so no row is inserted, nothing is thrown and \<^verbatim>\<open>getContacts\<close>
  gives the same list; and when there was at most one edge to \<open>c\<close> before the
  first call, there is exactly one after both.
\<close>

theorem addContact_idempotent:
  assumes "addContact d now userId x = (Inr c, d1)"
  shows "addContact d1 now' userId x = (Inr c, d1)
       \<and> getContacts (snd (addContact d1 now' userId x)) userId = getContacts d1 userId
       \<and> (length (contact_edges d userId (u_id c)) \<le> 1 \<longrightarrow> length (contact_edges d1 userId (u_id c)) = 1)"
proof -
  obtain rest where look: "filter (\<lambda>u. u_email u = Some x) (users d1) = c # rest"
    using addContact_success(1,2)[OF assms] by auto
  obtain e es where ex: "filter (\<lambda>k. ct_userId k = userId \<and> ct_contactId k = u_id c) (contacts d1) = e # es"
    using addContact_success(4)[OF assms] by (auto simp: contact_edges_def neq_Nil_conv)
  have again: "addContact d1 now' userId x = (Inr c, d1)"
    using addContact_success(3)[OF assms] by (simp add: addContact_def look ex)
  have one: "length (contact_edges d1 userId (u_id c)) = 1" if "length (contact_edges d userId (u_id c)) \<le> 1"
  proof (cases "contact_edges d userId (u_id c) = []")
    case True
    with addContact_success(6)[OF assms] show ?thesis by (simp add: contact_edges_def)
  next
    case False
    with addContact_success(5)[OF assms] have "d1 = d" by simp
    with False that show ?thesis by (cases "contact_edges d userId (u_id c)") auto
  qed
  from again one show ?thesis by simp
qed

lemma addContact_db0: "addContact db0 5 ''u1'' ''bob@example.com'' = (Inr bob, db1)"
  by (simp add: addContact_def insert_contacts_def user_ids_def db0_def db1_def alice_def bob_def Let_def)

theorem addContact_idempotent_witness:
  "addContact db0 5 ''u1'' ''bob@example.com'' = (Inr bob, db1)
   \<and> addContact db1 9 ''u1'' ''bob@example.com'' = (Inr bob, db1)
   \<and> getContacts (snd (addContact db1 9 ''u1'' ''bob@example.com'')) ''u1'' = getContacts db1 ''u1''
   \<and> length (contact_edges db0 ''u1'' ''u2'') \<le> 1
   \<and> length (contact_edges db1 ''u1'' ''u2'') = 1"
proof -
  have small: "length (contact_edges db0 ''u1'' ''u2'') \<le> 1"
    by (simp add: contact_edges_def db0_def)
  have id: "u_id bob = ''u2''"
    by (simp add: bob_def)
  from addContact_idempotent[OF addContact_db0, of 9] small id addContact_db0
  show ?thesis by simp
qed

text \<open>
  Claim C7 (contradicted by the code).  The store throws two different errors,
  \<open>User not found\<close> and \<open>Cannot add yourself as a contact\<close>, and the
  route answers both with status 400: the branch \<^verbatim>\<open>err instanceof Error\<close>
  catches every error alike, and no path of the handler answers 404, the status
  that the route's own declaration lists for the not-found case.
\<close>

theorem contacts_add_handler_not_found_is_400:
  "addContact db0 5 ''u1'' ''nobody@example.com'' = (Inl (Error ''User not found''), db0)
   \<and> contacts_add_handler db0 5 ''u1'' (Some ''nobody@example.com'') = (FailureOf 400 (Error ''User not found''), db0)
   \<and> addContact db0 5 ''u1'' ''Alice@example.com'' = (Inl (Error ''Cannot add yourself as a contact''), db0)
   \<and> contacts_add_handler db0 5 ''u1'' (Some ''Alice@example.com'') =
        (FailureOf 400 (Error ''Cannot add yourself as a contact''), db0)"
  by (simp add: contacts_add_handler_def addContact_def instanceof_Error_def db0_def alice_def bob_def)

section \<open>The push hub\<close>

lemma sockets_on_close: "sockets (on_close h ws) = sockets h"
  by (simp add: on_close_def Let_def split: option.splits)

lemma sent_on_close: "sent (on_close h ws) = sent h"
  by (simp add: on_close_def Let_def split: option.splits)

lemma sent_on_message: "sent (on_message h ws data) = sent h"
  by (simp add: on_message_def Let_def split: wsdata.splits)

lemma closed_on_message: "closed w h \<Longrightarrow> closed w (on_message h ws data)"
  by (cases "ws = w") (auto simp: closed_def on_message_def Let_def split: wsdata.splits)

lemma closed_broadcast: "closed w h \<Longrightarrow> closed w (broadcastMessage h c m)"
  by (simp add: closed_def broadcastMessage_def Let_def split: jsnum.splits option.splits)

lemma sent_to_broadcast: "closed w h \<Longrightarrow> sent_to w (broadcastMessage h c m) = sent_to w h"
  by (auto simp: closed_def broadcastMessage_def sent_to_def Let_def filter_empty_conv
           split: jsnum.splits option.splits)

lemma closed_step: "closed w h \<Longrightarrow> closed w (hub_step h ev)"
proof (cases ev)
  case Connect
  assume "closed w h" with Connect show ?thesis
    by (simp add: hub_step_def closed_def nth_append)
next
  case (Frame ws data)
  assume "closed w h" with Frame show ?thesis
    by (simp add: hub_step_def closed_on_message)
next
  case (Closing ws)
  assume "closed w h" with Closing show ?thesis
    by (cases "ws = w") (auto simp: hub_step_def closed_def set_readyState_def)
next
  case (Close ws)
  assume "closed w h" with Close show ?thesis
    by (cases "ws = w") (auto simp: hub_step_def closed_def set_readyState_def sockets_on_close)
next
  case (Publish c m)
  assume "closed w h" with Publish show ?thesis
    by (simp add: hub_step_def closed_broadcast)
qed

lemma sent_to_step: "closed w h \<Longrightarrow> sent_to w (hub_step h ev) = sent_to w h"
proof (cases ev)
  case (Publish c m)
  assume "closed w h" with Publish show ?thesis
    by (simp add: hub_step_def sent_to_broadcast)
qed (simp_all add: hub_step_def sent_to_def sent_on_message sent_on_close set_readyState_def)

lemma closed_run: "closed w h \<Longrightarrow> closed w (hub_run h evs) \<and> sent_to w (hub_run h evs) = sent_to w h"
  unfolding hub_run_def
proof (induction evs arbitrary: h)
  case Nil
  then show ?case by simp
next
  case (Cons ev evs)
  from Cons.prems have "closed w (hub_step h ev)" by (rule closed_step)
  from Cons.IH[OF this] sent_to_step[OF Cons.prems, of ev] show ?case by simp
qed

lemma length_sockets_step: "length (sockets h) \<le> length (sockets (hub_step h ev))"
  by (cases ev)
     (auto simp: hub_step_def on_message_def set_readyState_def sockets_on_close broadcastMessage_def Let_def
           split: wsdata.splits jsnum.splits option.splits)

lemma length_sockets_run: "length (sockets h) \<le> length (sockets (hub_run h evs))"
  unfolding hub_run_def
proof (induction evs arbitrary: h)
  case Nil
  then show ?case by simp
next
  case (Cons ev evs)
  from length_sockets_step[of h ev] Cons.IH[of "hub_step h ev"] show ?case by simp
qed

lemma closed_after_Close: "w < length (sockets h) \<Longrightarrow> closed w (hub_step h (Close w))"
  by (simp add: hub_step_def closed_def sockets_on_close set_readyState_def)

text \<open>
  Claim C6.  Take any hub state in which connection \<open>w\<close> exists.  Let \<open>w\<close>
  join conversation \<open>c\<close>, let any events follow (other joins of \<open>w\<close>
  included), and let \<open>w\<close> disconnect.  Whatever happens afterwards, publishes
  to \<open>c\<close> included, nothing more is sent to \<open>w\<close>: the envelopes sent to
  \<open>w\<close> at the end are those sent to it up to the disconnect.  (The close
  handler may leave \<open>w\<close> in a subscriber set; \<^verbatim>\<open>broadcastMessage\<close>
  skips it because its transport is closed.)
\<close>

theorem no_delivery_after_disconnect:
  assumes "w < length (sockets h)"
  shows "sent_to w (hub_run (hub_step (hub_run (hub_step h (Frame w (Parsed (JString ''join'') c))) between) (Close w)) after)
       = sent_to w (hub_step (hub_run (hub_step h (Frame w (Parsed (JString ''join'') c))) between) (Close w))"
proof -
  let ?joined = "hub_step h (Frame w (Parsed (JString ''join'') c))"
  let ?before = "hub_run ?joined between"
  from assms have "w < length (sockets ?joined)"
    using length_sockets_step[of h "Frame w (Parsed (JString ''join'') c)"] by simp
  then have "w < length (sockets ?before)"
    using length_sockets_run[of ?joined between] by simp
  then have "closed w (hub_step ?before (Close w))"
    by (rule closed_after_Close)
  then show ?thesis
    using closed_run by blast
qed

lemma hub_wf_step: "hub_wf h \<Longrightarrow> hub_wf (hub_step h ev)"
proof (cases ev)
  case (Frame ws data)
  assume "hub_wf h" with Frame show ?thesis
    by (auto simp: hub_step_def hub_wf_def on_message_def set_add_def Let_def
             split: wsdata.splits option.splits if_splits)
next
  case (Close ws)
  assume "hub_wf h" with Close show ?thesis
    by (auto simp: hub_step_def hub_wf_def on_close_def set_delete_def set_readyState_def Let_def distinct_removeAll
             split: option.splits if_splits)
next
  case (Publish c m)
  assume "hub_wf h" with Publish show ?thesis
    by (auto simp: hub_step_def hub_wf_def broadcastMessage_def Let_def split: jsnum.splits option.splits)
qed (auto simp: hub_step_def hub_wf_def set_readyState_def)

lemma hub_wf_run: "hub_wf h \<Longrightarrow> hub_wf (hub_run h evs)"
  unfolding hub_run_def
  by (induction evs arbitrary: h) (simp_all add: hub_wf_step)

lemma hub_wf_reachable: "hub_wf (hub_run hub_init evs)"
  by (rule hub_wf_run) (simp add: hub_wf_def hub_init_def)

lemma broadcastMessage_effect:
  "broadcastMessage h (Num cid) m =
     h\<lparr>sent := sent h @ map (\<lambda>ws. (ws, message_new m)) (filter (is_open h) (subscribers h cid))\<rparr>"
  by (simp add: broadcastMessage_def subscribers_def message_new_def is_open_def[abs_def] Let_def split: option.splits)

lemma messages_send_handler_success:
  assumes "messages_send_handler d h now sub id_param body = (Json 201 msg, d', h')"
  shows "parseInt id_param = Num (msg_conversationId msg)"
    and "h' = broadcastMessage h (Num (msg_conversationId msg)) msg"
    and "msg_senderId msg = sub"
    and "messages d' = messages d @ [msg]"
  using assms
  by (auto simp: messages_send_handler_def createMessage_def insert_messages_def getConversation_def Let_def
           split: option.splits if_splits sum.splits prod.splits jsnum.splits)

text \<open>
  Claim C5 (amended).  In every hub state reachable from the empty hub: when the
  route creates a message \<open>msg\<close> and answers 201, the hub sends the envelope
  \<open>{type: "message:new", data: msg}\<close> once to every connection in the
  conversation's subscriber set whose transport is open (the set holds no
  connection twice), in the set's order, and sends nothing else; connections
  that are not open receive nothing; the subscriber sets and the connections
  are left as they were.  No connection is left out for being the sender's.
\<close>

theorem broadcast_reaches_every_open_subscriber:
  assumes "messages_send_handler d (hub_run hub_init evs) now sub id_param body = (Json 201 msg, d', h')"
  shows "sent h' = sent (hub_run hub_init evs) @
             map (\<lambda>ws. (ws, message_new msg))
                 (filter (is_open (hub_run hub_init evs)) (subscribers (hub_run hub_init evs) (msg_conversationId msg)))
       \<and> distinct (subscribers (hub_run hub_init evs) (msg_conversationId msg))
       \<and> clients h' = clients (hub_run hub_init evs)
       \<and> sockets h' = sockets (hub_run hub_init evs)
       \<and> messages d' = messages d @ [msg] \<and> msg_senderId msg = sub"
proof -
  let ?h = "hub_run hub_init evs"
  have h': "h' = ?h\<lparr>sent := sent ?h @ map (\<lambda>ws. (ws, message_new msg))
                     (filter (is_open ?h) (subscribers ?h (msg_conversationId msg)))\<rparr>"
    using messages_send_handler_success(2)[OF assms] by (simp add: broadcastMessage_effect)
  have "distinct (subscribers ?h (msg_conversationId msg))"
    using hub_wf_reachable[of evs] by (auto simp: hub_wf_def subscribers_def split: option.splits)
  with messages_send_handler_success(3,4)[OF assms] show ?thesis
    by (simp add: h')
qed

lemma hub_example:
  "sockets (hub_run hub_init [Connect, Frame 0 (join 1)]) = [\<lparr>ws_readyState = OPEN, ws_conversationId = JNumber 1\<rparr>]"
  "clients (hub_run hub_init [Connect, Frame 0 (join 1)]) (JNumber 1) = Some [0]"
  "sent (hub_run hub_init [Connect, Frame 0 (join 1)]) = []"
  by (simp_all add: hub_run_def hub_step_def hub_init_def on_message_def join_def set_add_def Let_def)

lemma send_example:
  "messages_send_handler db2 h 2000 ''u1'' ''1'' (Some ''hi'') =
     (Json 201 hi, db2\<lparr>messages := [hi], messages_seq := 2\<rparr>, broadcastMessage h (Num 1) hi)"
  by (simp add: messages_send_handler_def parseInt_def is_whitespace_def digit_value_def getConversation_def
        join_users_def is_member_def createMessage_def insert_messages_def conversation_ids_def user_ids_def
        int4_def db2_def alice_def bob_def hi_def Let_def)

text \<open>
  Claim C5 as stated fails.  The hub holds a single connection, opened by user
  \<open>u1\<close> and joined to conversation 1.  User \<open>u1\<close> posts a message to
  conversation 1: the envelope is sent to that connection, the sender's own.
\<close>

theorem broadcast_includes_sender_connection:
  "length (sockets (hub_run hub_init [Connect, Frame 0 (join 1)])) = 1
   \<and> fst (messages_send_handler db2 (hub_run hub_init [Connect, Frame 0 (join 1)]) 2000 ''u1'' ''1'' (Some ''hi''))
       = Json 201 hi
   \<and> msg_senderId hi = ''u1''
   \<and> sent (snd (snd (messages_send_handler db2 (hub_run hub_init [Connect, Frame 0 (join 1)]) 2000 ''u1'' ''1'' (Some ''hi''))))
       = [(0, \<lparr>env_type = ''message:new'', env_data = hi\<rparr>)]"
  by (simp add: send_example broadcastMessage_effect hub_example subscribers_def is_open_def message_new_def hi_def)

lemma hub_example2:
  "sockets (hub_run hub_init [Connect, Frame 0 (join 1), Connect, Frame 1 (join 1), Frame 1 (join 2), Close 1]) =
     [\<lparr>ws_readyState = OPEN, ws_conversationId = JNumber 1\<rparr>, \<lparr>ws_readyState = CLOSED, ws_conversationId = JNumber 2\<rparr>]"
  "clients (hub_run hub_init [Connect, Frame 0 (join 1), Connect, Frame 1 (join 1), Frame 1 (join 2), Close 1]) (JNumber 1)
     = Some [0, 1]"
  "sent (hub_run hub_init [Connect, Frame 0 (join 1), Connect, Frame 1 (join 1), Frame 1 (join 2), Close 1]) = []"
  by (simp_all add: hub_run_def hub_step_def hub_init_def on_message_def on_close_def set_readyState_def truthy_def
        join_def set_add_def set_delete_def Let_def)

theorem broadcast_reaches_every_open_subscriber_witness:
  "messages_send_handler db2
       (hub_run hub_init [Connect, Frame 0 (join 1), Connect, Frame 1 (join 1), Frame 1 (join 2), Close 1])
       2000 ''u1'' ''1'' (Some ''hi'')
     = (Json 201 hi, db2\<lparr>messages := [hi], messages_seq := 2\<rparr>,
        broadcastMessage (hub_run hub_init [Connect, Frame 0 (join 1), Connect, Frame 1 (join 1), Frame 1 (join 2), Close 1])
          (Num 1) hi)
   \<and> sent (broadcastMessage
              (hub_run hub_init [Connect, Frame 0 (join 1), Connect, Frame 1 (join 1), Frame 1 (join 2), Close 1])
              (Num 1) hi)
       = [(0, message_new hi)]
   \<and> clients (broadcastMessage
              (hub_run hub_init [Connect, Frame 0 (join 1), Connect, Frame 1 (join 1), Frame 1 (join 2), Close 1])
              (Num 1) hi) (JNumber 1)
       = Some [0, 1]"
proof -
  let ?h = "hub_run hub_init [Connect, Frame 0 (join 1), Connect, Frame 1 (join 1), Frame 1 (join 2), Close 1]"
  have subs: "subscribers ?h 1 = [0, 1]"
    using hub_example2 by (simp add: subscribers_def)
  have opn: "is_open ?h 0" "\<not> is_open ?h 1"
    using hub_example2 by (simp_all add: is_open_def)
  have conv: "msg_conversationId hi = 1"
    by (simp add: hi_def)
  from broadcast_reaches_every_open_subscriber[OF send_example, of "[Connect, Frame 0 (join 1), Connect, Frame 1 (join 1), Frame 1 (join 2), Close 1]"]
  show ?thesis
    using hub_example2 subs opn by (simp add: send_example conv broadcastMessage_effect)
qed

lemma hub_example3:
  "sent (hub_step (hub_run (hub_step (hub_run hub_init [Connect]) (Frame 0 (Parsed (JString ''join'') (JNumber 1))))
                     [Publish (Num 1) hi, Frame 0 (join 2)]) (Close 0))
     = [(0, message_new hi)]"
  "clients (hub_step (hub_run (hub_step (hub_run hub_init [Connect]) (Frame 0 (Parsed (JString ''join'') (JNumber 1))))
                     [Publish (Num 1) hi, Frame 0 (join 2)]) (Close 0)) (JNumber 1)
     = Some [0]"
  by (simp_all add: hub_run_def hub_step_def hub_init_def on_message_def on_close_def broadcastMessage_def
        set_readyState_def truthy_def join_def set_add_def set_delete_def message_new_def Let_def)

theorem no_delivery_after_disconnect_witness:
  "0 < length (sockets (hub_run hub_init [Connect]))
   \<and> sent_to 0 (hub_step (hub_run (hub_step (hub_run hub_init [Connect])
                     (Frame 0 (Parsed (JString ''join'') (JNumber 1)))) [Publish (Num 1) hi, Frame 0 (join 2)]) (Close 0))
     = [message_new hi]
   \<and> clients (hub_step (hub_run (hub_step (hub_run hub_init [Connect])
                     (Frame 0 (Parsed (JString ''join'') (JNumber 1)))) [Publish (Num 1) hi, Frame 0 (join 2)]) (Close 0))
          (JNumber 1)
     = Some [0]
   \<and> sent_to 0 (hub_run (hub_step (hub_run (hub_step (hub_run hub_init [Connect])
                     (Frame 0 (Parsed (JString ''join'') (JNumber 1)))) [Publish (Num 1) hi, Frame 0 (join 2)]) (Close 0))
                 [Publish (Num 1) yo, Publish (Num 2) yo])
     = [message_new hi]"
proof -
  have len: "0 < length (sockets (hub_run hub_init [Connect]))"
    by (simp add: hub_run_def hub_step_def hub_init_def)
  have before: "sent_to 0 (hub_step (hub_run (hub_step (hub_run hub_init [Connect])
                     (Frame 0 (Parsed (JString ''join'') (JNumber 1)))) [Publish (Num 1) hi, Frame 0 (join 2)]) (Close 0))
     = [message_new hi]"
    by (simp add: sent_to_def hub_example3)
  from no_delivery_after_disconnect[OF len, of "JNumber 1" "[Publish (Num 1) hi, Frame 0 (join 2)]"
         "[Publish (Num 1) yo, Publish (Num 2) yo]"]
    len before hub_example3(2)
  show ?thesis by simp
qed

section \<open>Messages: order and paging\<close>





















section \<open>The conversation list\<close>

lemma hd_sort_key:
  assumes "xs \<noteq> []"
  shows "hd (sort_key g xs) \<in> set xs \<and> (\<forall>y \<in> set xs. g (hd (sort_key g xs)) \<le> g y)"
proof -
  from assms have ne: "sort_key g xs \<noteq> []" by (metis length_0_conv length_sort)
  then obtain h t where ht: "sort_key g xs = h # t" by (cases "sort_key g xs") auto
  have "sorted (map g (h # t))" using sorted_sort_key[of g xs] by (simp add: ht)
  then have le: "\<forall>y \<in> set (h # t). g h \<le> g y" by auto
  have eq: "set (h # t) = set xs" using set_sort[of g xs] by (simp add: ht)
  from le eq have "\<forall>y \<in> set xs. g h \<le> g y" by blast
  moreover from eq have "h \<in> set xs" by auto
  ultimately show ?thesis by (simp add: ht)
qed

lemma lastMsg_None: "conversation_times d cid = [] \<Longrightarrow> lastMsg d cid = None"
  by (simp add: lastMsg_def conversation_times_def)

lemma lastMsg_Some:
  assumes "conversation_times d cid \<noteq> []"
  shows "\<exists>m. lastMsg d cid = Some m \<and> m \<in> set (messages d) \<and> msg_createdAt m = Max (set (conversation_times d cid))"
proof -
  let ?xs = "filter (\<lambda>m. msg_conversationId m = cid) (messages d)"
  let ?g = "\<lambda>m. - msg_createdAt m"
  from assms have ne: "?xs \<noteq> []" by (auto simp: conversation_times_def)
  let ?h = "hd (sort_key ?g ?xs)"
  from hd_sort_key[OF ne, of ?g] have h: "?h \<in> set ?xs" "\<forall>y \<in> set ?xs. msg_createdAt y \<le> msg_createdAt ?h"
    by auto
  from ne have "sort_key ?g ?xs \<noteq> []" by (metis length_0_conv length_sort)
  then have last: "lastMsg d cid = Some ?h"
    by (cases "sort_key ?g ?xs") (simp_all add: lastMsg_def)
  have "Max (set (conversation_times d cid)) = msg_createdAt ?h"
    unfolding conversation_times_def
    by (rule Max_eqI) (use h in auto)
  with last h(1) show ?thesis by auto
qed

lemma sort_time_enrich:
  assumes "\<forall>m \<in> set (messages d). msg_createdAt m \<noteq> 0"
  shows "sort_time (enrich d userId conv) = effective_timestamp d conv"
proof (cases "conversation_times d (c_id conv) = []")
  case True
  then show ?thesis
    by (simp add: sort_time_def enrich_def effective_timestamp_def lastMsg_None)
next
  case False
  from lastMsg_Some[OF False] obtain m where m: "lastMsg d (c_id conv) = Some m" "m \<in> set (messages d)"
    "msg_createdAt m = Max (set (conversation_times d (c_id conv)))" by blast
  with assms have "msg_createdAt m \<noteq> 0" by blast
  with m False show ?thesis
    by (simp add: sort_time_def enrich_def effective_timestamp_def)
qed

lemma getConversations_eq:
  "getConversations d userId =
     sort_key (\<lambda>a. - sort_time a) (map (enrich d userId) (sort_key (\<lambda>c. - c_createdAt c) (user_conversations d userId)))"
proof (cases "filter (\<lambda>m. m_userId m = userId) (conversationMembers d) = []")
  case True
  then have "user_conversations d userId = []"
    by (simp add: user_conversations_def)
  with True show ?thesis
    by (simp add: getConversations_def)
next
  case False
  then show ?thesis
    by (simp add: getConversations_def user_conversations_def Let_def)
qed

lemma set_getConversations:
  "set (getConversations d userId) = enrich d userId ` set (user_conversations d userId)"
  by (simp add: getConversations_eq)

text \<open>
  Claim C4.  For every user, \<^verbatim>\<open>getConversations\<close> returns the empty
  list when the user has no membership row; in every case it returns exactly
  the user's conversations, each once, sorted descending by effective
  timestamp (the latest message's creation time if the conversation has a
  message, its own creation time otherwise), and every summary reports an
  unread count of zero.  The comparator reads a message time of zero as
  absent, so the statement is for databases in which no message carries the
  epoch instant (\<^verbatim>\<open>getTime() = 0\<close>) as its creation time.
\<close>

theorem getConversations_sorted_by_effective_timestamp:
  assumes "\<forall>m \<in> set (messages d). msg_createdAt m \<noteq> 0"
  shows "(filter (\<lambda>m. m_userId m = userId) (conversationMembers d) = [] \<longrightarrow> getConversations d userId = [])
       \<and> mset (map cs_conversation (getConversations d userId)) = mset (user_conversations d userId)
       \<and> sorted_wrt (\<ge>) (map (\<lambda>s. effective_timestamp d (cs_conversation s)) (getConversations d userId))
       \<and> (\<forall>s \<in> set (getConversations d userId). cs_unreadCount s = 0)"
proof -
  let ?r = "getConversations d userId"
  have empty: "filter (\<lambda>m. m_userId m = userId) (conversationMembers d) = [] \<longrightarrow> ?r = []"
    by (simp add: getConversations_def)
  have proj: "map cs_conversation (map (enrich d userId) xs) = xs" for xs
    by (induction xs) (simp_all add: enrich_def)
  have "mset (map cs_conversation ?r) =
        image_mset cs_conversation (mset (map (enrich d userId) (sort_key (\<lambda>c. - c_createdAt c) (user_conversations d userId))))"
    by (simp add: getConversations_eq)
  also have "\<dots> = mset (map cs_conversation (map (enrich d userId) (sort_key (\<lambda>c. - c_createdAt c) (user_conversations d userId))))"
    by (simp only: mset_map)
  also have "\<dots> = mset (user_conversations d userId)"
    by (simp only: proj mset_sort)
  finally have all: "mset (map cs_conversation ?r) = mset (user_conversations d userId)" .
  have key: "sort_time s = effective_timestamp d (cs_conversation s)" if "s \<in> set ?r" for s
  proof -
    from that obtain conv where "s = enrich d userId conv"
      by (auto simp: set_getConversations)
    then show ?thesis
      using sort_time_enrich[OF assms, of userId conv] by (simp add: enrich_def)
  qed
  have "sorted (map (\<lambda>a. - sort_time a) ?r)"
    by (simp add: getConversations_eq)
  then have "sorted_wrt (\<lambda>a b. sort_time b \<le> sort_time a) ?r"
    by (simp add: sorted_wrt_map)
  then have "sorted_wrt (\<lambda>a b. effective_timestamp d (cs_conversation b) \<le> effective_timestamp d (cs_conversation a)) ?r"
    by (rule sorted_wrt_mono_rel[rotated]) (simp add: key)
  then have sorted: "sorted_wrt (\<ge>) (map (\<lambda>s. effective_timestamp d (cs_conversation s)) ?r)"
    by (simp add: sorted_wrt_map)
  have unread: "\<forall>s \<in> set ?r. cs_unreadCount s = 0"
    by (auto simp: set_getConversations enrich_def)
  from empty all sorted unread show ?thesis by blast
qed

lemma getConversations_db4:
  "map (\<lambda>s. c_id (cs_conversation s)) (getConversations db4 ''u1'') = [1, 2]"
  "map sort_time (getConversations db4 ''u1'') = [4000, 3000]"
  "getConversations db4 ''nobody'' = []"
  by (simp_all add: getConversations_def enrich_def lastMsg_def otherMember_def join_users_def sort_time_def
        db4_def hi_def alice_def bob_def Let_def)

theorem getConversations_sorted_by_effective_timestamp_witness:
  "0 \<notin> msg_createdAt ` set (messages db4)
   \<and> getConversations db4 ''nobody'' = []
   \<and> map (\<lambda>s. c_id (cs_conversation s)) (getConversations db4 ''u1'') = [1, 2]
   \<and> sorted_wrt (\<ge>) (map (\<lambda>s. effective_timestamp db4 (cs_conversation s)) (getConversations db4 ''u1''))
   \<and> map (\<lambda>s. effective_timestamp db4 (cs_conversation s)) (getConversations db4 ''u1'') = [4000, 3000]
   \<and> map cs_unreadCount (getConversations db4 ''u1'') = [0, 0]"
proof -
  have h: "\<forall>m \<in> set (messages db4). msg_createdAt m \<noteq> 0"
    by (simp add: db4_def hi_def)
  have h': "0 \<notin> msg_createdAt ` set (messages db4)"
    by (simp add: db4_def hi_def)
  have eval: "map cs_conversation (getConversations db4 ''u1'') =
      [\<lparr>c_id = 1, c_name = None, c_isGroup = False, c_createdAt = 1000\<rparr>,
       \<lparr>c_id = 2, c_name = None, c_isGroup = False, c_createdAt = 3000\<rparr>]"
    "map cs_unreadCount (getConversations db4 ''u1'') = [0, 0]"
    by (simp_all add: getConversations_def enrich_def lastMsg_def otherMember_def join_users_def sort_time_def
        db4_def hi_def alice_def bob_def Let_def)
  have eff: "effective_timestamp db4 \<lparr>c_id = 1, c_name = None, c_isGroup = False, c_createdAt = 1000\<rparr> = 4000"
    "effective_timestamp db4 \<lparr>c_id = 2, c_name = None, c_isGroup = False, c_createdAt = 3000\<rparr> = 3000"
    by (simp_all add: effective_timestamp_def conversation_times_def db4_def hi_def)
  have m: "map (\<lambda>s. effective_timestamp db4 (cs_conversation s)) (getConversations db4 ''u1'') =
           map (effective_timestamp db4) (map cs_conversation (getConversations db4 ''u1''))"
    by simp
  have ids: "map (\<lambda>s. c_id (cs_conversation s)) (getConversations db4 ''u1'') =
           map c_id (map cs_conversation (getConversations db4 ''u1''))"
    by simp
  from getConversations_sorted_by_effective_timestamp[OF h, of "''u1''"]
  have "sorted_wrt (\<ge>) (map (\<lambda>s. effective_timestamp db4 (cs_conversation s)) (getConversations db4 ''u1''))"
    by blast
  with h' getConversations_db4(3) eval(2) show ?thesis
    unfolding m ids eval(1) by (simp add: eff)
qed

section \<open>User search\<close>

lemma like_percent: "like ''%'' s"
  by (induction s) simp_all

lemma like_plain_prefix: "plain q \<Longrightarrow> like (q @ ''%'') s \<longleftrightarrow> prefix q s"
proof (induction q arbitrary: s)
  case Nil
  then show ?case by (simp add: like_percent del: like.simps)
next
  case (Cons c q)
  then have c: "c \<noteq> CHR ''%''" "c \<noteq> CHR ''_''" "c \<noteq> CHR 0x5C" and q: "plain q"
    by (auto simp: plain_def)
  show ?case
  proof (cases s)
    case Nil
    with c show ?thesis by simp
  next
    case (Cons a s')
    with c Cons.IH[OF q, of s'] show ?thesis by auto
  qed
qed

lemma like_percent_Cons: "like (CHR ''%'' # p) s \<longleftrightarrow> (\<exists>a b. s = a @ b \<and> like p b)"
proof (induction s)
  case Nil
  then show ?case by simp
next
  case (Cons x s)
  have "like (CHR ''%'' # p) (x # s) \<longleftrightarrow> like p (x # s) \<or> like (CHR ''%'' # p) s"
    by simp
  also have "\<dots> \<longleftrightarrow> like p (x # s) \<or> (\<exists>a b. s = a @ b \<and> like p b)"
    using Cons.IH by simp
  also have "\<dots> \<longleftrightarrow> (\<exists>a b. x # s = a @ b \<and> like p b)"
  proof
    assume "like p (x # s) \<or> (\<exists>a b. s = a @ b \<and> like p b)"
    then show "\<exists>a b. x # s = a @ b \<and> like p b"
    proof
      assume "like p (x # s)"
      then have "x # s = [] @ (x # s) \<and> like p (x # s)" by simp
      then show ?thesis by blast
    next
      assume "\<exists>a b. s = a @ b \<and> like p b"
      then obtain a b where "s = a @ b" "like p b" by blast
      then have "x # s = (x # a) @ b \<and> like p b" by simp
      then show ?thesis by blast
    qed
  next
    assume "\<exists>a b. x # s = a @ b \<and> like p b"
    then obtain a b where ab: "x # s = a @ b" "like p b" by blast
    show "like p (x # s) \<or> (\<exists>a b. s = a @ b \<and> like p b)"
    proof (cases a)
      case Nil
      with ab show ?thesis by simp
    next
      case (Cons y a')
      with ab have "s = a' @ b" by simp
      with ab(2) show ?thesis by blast
    qed
  qed
  finally show ?case .
qed

lemma like_substring: "plain q \<Longrightarrow> like (''%'' @ q @ ''%'') s \<longleftrightarrow> sublist q s"
proof -
  assume q: "plain q"
  have "like (''%'' @ q @ ''%'') s \<longleftrightarrow> (\<exists>a b. s = a @ b \<and> prefix q b)"
    using like_percent_Cons[of "q @ ''%''" s] like_plain_prefix[OF q] by simp
  also have "\<dots> \<longleftrightarrow> sublist q s"
    by (auto simp: sublist_def prefix_def)
  finally show ?thesis .
qed

lemma like_column_substring: "plain q \<Longrightarrow> like_column col (''%'' @ q @ ''%'') \<longleftrightarrow> contains col q"
  using like_substring by (cases col) (simp_all add: like_column_def contains_def)

lemma like_column_empty: "like_column col (''%'' @ [] @ ''%'') \<longleftrightarrow> col \<noteq> None"
  using like_substring[of "[]"] by (cases col) (simp_all add: like_column_def plain_def)

text \<open>
  Claim C9 (amended).  \<^verbatim>\<open>searchUsers\<close> returns at most 10 users.  It
  matches the SQL pattern \<^verbatim>\<open>%query%\<close> with LIKE against email, first
  name and last name: for every query without the characters
  \<^verbatim>\<open>%\<close>, \<^verbatim>\<open>_\<close> and backslash it returns the first 10 users
  one of whose three fields is not NULL and contains the query as a substring,
  letter case included.  For the empty query it returns the first 10 users that
  have one of the three fields at all.  The route refuses the empty query with
  status 400 before the store is called and passes every other query on.
\<close>

theorem searchUsers_like_substring:
  "length (searchUsers d query) \<le> 10
   \<and> (plain query \<longrightarrow>
        searchUsers d query =
          take 10 (filter (\<lambda>u. contains (u_email u) query \<or> contains (u_firstName u) query
                               \<or> contains (u_lastName u) query) (users d)))
   \<and> searchUsers d [] = take 10 (filter (\<lambda>u. u_email u \<noteq> None \<or> u_firstName u \<noteq> None \<or> u_lastName u \<noteq> None) (users d))
   \<and> users_search_handler d (Some []) = Failure 400 ''Invalid query''
   \<and> (query \<noteq> [] \<longrightarrow> users_search_handler d (Some query) = Json 200 (searchUsers d query))"
proof -
  have len: "length (searchUsers d query) \<le> 10"
    by (simp add: searchUsers_def)
  have sub: "searchUsers d query =
          take 10 (filter (\<lambda>u. contains (u_email u) query \<or> contains (u_firstName u) query
                               \<or> contains (u_lastName u) query) (users d))" if "plain query"
    unfolding searchUsers_def by (simp only: like_column_substring[OF that])
  have empty: "searchUsers d [] =
          take 10 (filter (\<lambda>u. u_email u \<noteq> None \<or> u_firstName u \<noteq> None \<or> u_lastName u \<noteq> None) (users d))"
    unfolding searchUsers_def by (simp only: like_column_empty)
  have route: "users_search_handler d (Some []) = Failure 400 ''Invalid query''"
    "query \<noteq> [] \<longrightarrow> users_search_handler d (Some query) = Json 200 (searchUsers d query)"
    by (auto simp: users_search_handler_def)
  from len sub empty route show ?thesis by blast
qed

lemma searchUsers_db0:
  "searchUsers db0 ''alice'' = []"
  "searchUsers db0 [] = [alice, bob]"
  "searchUsers db0 ''Ali'' = [alice]"
  by (simp_all add: searchUsers_def like_column_def db0_def alice_def bob_def)

text \<open>
  Claim C9 as stated fails.  User Alice's first name contains the query
  \<open>alice\<close> when case is ignored, yet the search for \<open>alice\<close> returns
  nobody; and the search for the empty query returns both users of the table,
  not the empty list.
\<close>

theorem searchUsers_case_sensitive_and_empty_query:
  "alice \<in> set (users db0)
   \<and> contains_ignoring_case (u_firstName alice) ''alice''
   \<and> searchUsers db0 ''alice'' = []
   \<and> searchUsers db0 [] = [alice, bob]"
proof -
  have "map to_lower ''Alice'' = ''alice''" "map to_lower ''alice'' = ''alice''"
    by (simp_all add: to_lower_def)
  then have "contains_ignoring_case (u_firstName alice) ''alice''"
    by (simp add: contains_ignoring_case_def alice_def)
  then show ?thesis
    by (simp add: searchUsers_db0) (simp add: db0_def)
qed

theorem searchUsers_like_substring_witness:
  "plain ''Ali''
   \<and> length (searchUsers db0 ''Ali'') \<le> 10
   \<and> searchUsers db0 ''Ali'' =
        take 10 (filter (\<lambda>u. contains (u_email u) ''Ali'' \<or> contains (u_firstName u) ''Ali''
                             \<or> contains (u_lastName u) ''Ali'') (users db0))
   \<and> searchUsers db0 ''Ali'' = [alice]
   \<and> users_search_handler db0 (Some ''Ali'') = Json 200 [alice]"
proof -
  have p: "plain ''Ali''"
    by (simp add: plain_def)
  have n: "''Ali'' \<noteq> []"
    by simp
  from searchUsers_like_substring[of db0 "''Ali''"] p n searchUsers_db0(3)
  show ?thesis by simp
qed

section \<open>The constraints of the schema are preserved\<close>

lemma wf_db_insert_conversations: "wf_db d \<Longrightarrow> wf_db (snd (insert_conversations d now g))"
  by (fastforce simp: insert_conversations_def wf_db_def conversation_ids_def user_ids_def Let_def)

lemma member_rows_props:
  "r \<in> set (member_rows n now vals) \<Longrightarrow>
     n \<le> m_id r \<and> m_id r < n + int (length vals) \<and> (m_conversationId r, m_userId r) \<in> set vals"
  by (auto simp: member_rows_def in_set_enumerate_eq) (metis nth_mem)

lemma wf_db_insert_conversationMembers: "wf_db d \<Longrightarrow> wf_db (snd (insert_conversationMembers d now vals))"
proof -
  assume wf: "wf_db d"
  let ?rows = "member_rows (conversationMembers_seq d) now vals"
  show ?thesis
  proof (cases "\<exists>r \<in> set ?rows. m_id r \<in> set (map m_id (conversationMembers d))
                \<or> m_conversationId r \<notin> conversation_ids d \<or> m_userId r \<notin> user_ids d")
    case True
    then have "snd (insert_conversationMembers d now vals) =
                 d\<lparr>conversationMembers_seq := conversationMembers_seq d + int (length vals)\<rparr>"
      by (simp add: insert_conversationMembers_def Let_def)
    with wf show ?thesis
      by (fastforce simp: wf_db_def conversation_ids_def user_ids_def)
  next
    case False
    then have eq: "snd (insert_conversationMembers d now vals) =
                 d\<lparr>conversationMembers_seq := conversationMembers_seq d + int (length vals),
                   conversationMembers := conversationMembers d @ ?rows\<rparr>"
      by (simp add: insert_conversationMembers_def Let_def)
    have new: "\<forall>r \<in> set ?rows. m_id r < conversationMembers_seq d + int (length vals)
                 \<and> m_conversationId r \<in> conversation_ids d \<and> m_userId r \<in> user_ids d"
      using False member_rows_props[of _ "conversationMembers_seq d" now vals] by blast
    from wf new show ?thesis
      unfolding eq by (fastforce simp: wf_db_def conversation_ids_def user_ids_def)
  qed
qed

lemma wf_db_createConversation: "wf_db d \<Longrightarrow> wf_db (snd (createConversation d t1 t2 u p))"
proof -
  assume wf: "wf_db d"
  obtain r1 d1 where i1: "insert_conversations d t1 False = (r1, d1)"
    by (cases "insert_conversations d t1 False")
  with wf_db_insert_conversations[OF wf, of t1 False] have wf1: "wf_db d1" by simp
  show ?thesis
  proof (cases r1)
    case (Inl e)
    with i1 wf1 show ?thesis by (simp add: createConversation_def)
  next
    case (Inr conv)
    obtain r2 d2 where i2: "insert_conversationMembers d1 t2 [(c_id conv, u), (c_id conv, p)] = (r2, d2)"
      by (cases "insert_conversationMembers d1 t2 [(c_id conv, u), (c_id conv, p)]")
    with wf_db_insert_conversationMembers[OF wf1, of t2 "[(c_id conv, u), (c_id conv, p)]"] have "wf_db d2" by simp
    with i1 i2 Inr show ?thesis by (cases r2) (simp_all add: createConversation_def)
  qed
qed

lemma wf_db_insert_messages: "wf_db d \<Longrightarrow> wf_db (snd (insert_messages d now s c content))"
  by (fastforce simp: insert_messages_def wf_db_def conversation_ids_def user_ids_def Let_def)

lemma wf_db_createMessage: "wf_db d \<Longrightarrow> wf_db (snd (createMessage d now s cid content))"
  by (cases cid) (simp_all add: createMessage_def wf_db_insert_messages)

lemma wf_db_insert_contacts: "wf_db d \<Longrightarrow> wf_db (snd (insert_contacts d now u c))"
  by (fastforce simp: insert_contacts_def wf_db_def conversation_ids_def user_ids_def Let_def)

lemma wf_db_addContact: "wf_db d \<Longrightarrow> wf_db (snd (addContact d now u x))"
proof -
  assume wf: "wf_db d"
  have "snd (addContact d now u x) = d \<or> (\<exists>c. snd (addContact d now u x) = snd (insert_contacts d now u c))"
    by (auto simp: addContact_def split: list.splits prod.splits sum.splits) (metis snd_conv)+
  with wf wf_db_insert_contacts[OF wf, of now u] show ?thesis by auto
qed

text \<open>
  X1.  The schema's constraints are an invariant of the store: every writing
  operation, whether it succeeds or fails, takes a database that satisfies them
  to one that satisfies them.
\<close>

theorem wf_db_preserved:
  assumes "wf_db d"
  shows "wf_db (snd (createConversation d now1 now2 userId participantId))
       \<and> wf_db (snd (createMessage d now senderId conversationId content))
       \<and> wf_db (snd (addContact d now userId contactUsername))"
  using assms by (simp add: wf_db_createConversation wf_db_createMessage wf_db_addContact)

theorem wf_db_preserved_witness:
  "wf_db db0
   \<and> wf_db (snd (createConversation db0 1000 1001 ''u1'' ''ghost''))
   \<and> wf_db (snd (createMessage db0 2000 ''u1'' (Num 1) ''hi''))
   \<and> wf_db (snd (addContact db0 5 ''u1'' ''bob@example.com''))"
  using wf_db_preserved[OF wf_db0] wf_db0 by simp

section \<open>Further properties\<close>

text \<open>
  X2.  In a database that satisfies the schema's constraints and whose next
  conversation id fits the 32-bit id column, whenever the participant id
  refers to no user, \<^verbatim>\<open>createConversation\<close> rejects
  and still leaves its new conversation row behind with no membership row:
  \<^verbatim>\<open>getConversation\<close> returns it with an empty member list.
\<close>

theorem createConversation_orphan:
  assumes "wf_db d" and "participantId \<notin> user_ids d" and "int4 (conversations_seq d)"
  shows "\<exists>e d'. createConversation d now1 now2 userId participantId = (Inl e, d')
           \<and> conversations d' = conversations d @ [new_conversation d now1]
           \<and> conversationMembers d' = conversationMembers d
           \<and> getConversation d' (Num (conversations_seq d)) =
                Inr (Some \<lparr>cm_conversation = new_conversation d now1, cm_members = []\<rparr>)"
proof -
  let ?d1 = "d\<lparr>conversations_seq := conversations_seq d + 1,
               conversations := conversations d @ [new_conversation d now1]\<rparr>"
  let ?d2 = "?d1\<lparr>conversationMembers_seq := conversationMembers_seq d + 2\<rparr>"
  have c0: "filter (\<lambda>c. c_id c = conversations_seq d) (conversations d) = []"
    using seq_fresh[OF assms(1)] by (simp add: conversation_ids_def filter_absent_key)
  have "\<forall>m \<in> set (conversationMembers d). m_conversationId m \<noteq> conversations_seq d"
    using assms(1) seq_fresh[OF assms(1)] by (auto simp: wf_db_def)
  then have m0: "filter (\<lambda>m. m_conversationId m = conversations_seq d) (conversationMembers d) = []"
    by (simp add: filter_empty_conv)
  have run: "createConversation d now1 now2 userId participantId = (Inl (DatabaseError ''conversation_members''), ?d2)"
    using assms(2)
    by (simp add: createConversation_def insert_conversations_ok[OF assms(1)] insert_conversationMembers_def
        member_rows_two new_conversation_def user_ids_def Let_def)
  have get: "getConversation ?d2 (Num (conversations_seq d)) =
                Inr (Some \<lparr>cm_conversation = new_conversation d now1, cm_members = []\<rparr>)"
    using assms(3) by (simp add: getConversation_def c0 m0 new_conversation_def)
  show ?thesis
    apply (rule exI[of _ "DatabaseError ''conversation_members''"])
    apply (rule exI[of _ ?d2])
    using run get by simp
qed

theorem createConversation_orphan_witness:
  "wf_db db0 \<and> ''ghost'' \<notin> user_ids db0 \<and> int4 (conversations_seq db0)
   \<and> (\<exists>e d'. createConversation db0 1000 1001 ''u1'' ''ghost'' = (Inl e, d')
           \<and> conversations d' = conversations db0 @ [new_conversation db0 1000]
           \<and> conversationMembers d' = conversationMembers db0
           \<and> getConversation d' (Num (conversations_seq db0)) =
                Inr (Some \<lparr>cm_conversation = new_conversation db0 1000, cm_members = []\<rparr>))"
proof -
  have g: "''ghost'' \<notin> user_ids db0"
    by (simp add: user_ids_db0)
  from createConversation_orphan[OF wf_db0 g int4_db0, of 1000 1001 "''u1''"] wf_db0 g int4_db0
  show ?thesis by blast
qed

text \<open>
  X3.  Whatever the request, \<^verbatim>\<open>POST /api/contacts\<close> answers with
  status 201 or with status 400 and the caught error's message; it never answers
  404 or 500.
\<close>

theorem contacts_add_handler_status:
  "(\<exists>contact. fst (contacts_add_handler d now sub body) = Json 201 contact)
   \<or> (\<exists>err. fst (contacts_add_handler d now sub body) = FailureOf 400 err)"
  by (auto simp: contacts_add_handler_def instanceof_Error_def split: option.splits prod.splits sum.splits error.splits)

text \<open>
  X4.  When the lookup of the conversation is not rejected by the database, a
  user who is not among the members of the conversation, or who names a
  conversation that does not exist, is answered 401 by both message routes;
  the send route then creates no message and publishes nothing.
\<close>

theorem non_member_is_refused:
  assumes "getConversation d (parseInt id_param) = Inr conversation" and "\<not> is_member conversation sub"
  shows "messages_list_handler d sub id_param limit_param offset_param = Failure 401 ''Unauthorized''
       \<and> messages_send_handler d h now sub id_param (Some (c # content)) = (Failure 401 ''Unauthorized'', d, h)"
  using assms by (simp add: messages_list_handler_def messages_send_handler_def Let_def)

theorem non_member_is_refused_witness:
  "getConversation db2 (parseInt ''7'') = Inr None \<and> \<not> is_member None ''u1''
   \<and> messages_list_handler db2 ''u1'' ''7'' None None = Failure 401 ''Unauthorized''
   \<and> messages_send_handler db2 hub_init 2000 ''u1'' ''7'' (Some ''hi'') = (Failure 401 ''Unauthorized'', db2, hub_init)"
proof -
  have g: "getConversation db2 (parseInt ''7'') = Inr None"
    by (simp add: getConversation_def int4_def parseInt_def is_whitespace_def digit_value_def db2_def Let_def)
  have m: "\<not> is_member None ''u1''"
    by (simp add: is_member_def)
  from non_member_is_refused[OF g m, of None None hub_init 2000 "CHR ''h''" "''i''"] g m
  show ?thesis by simp
qed

end
